theory Spec2Isabelle
  imports Main
begin

section \<open>The XML tree handed to the parser\<close>

text \<open>
  \<^verbatim>\<open>parse_reqif\<close> receives an lxml element tree. Under the root there are elements,
  comments and processing instructions; \<^verbatim>\<open>etree.parse\<close> with the default parser keeps
  all three. An element carries its name, the namespace declarations written on it
  (prefix, \<open>None\<close> for the default namespace, and URI), its attributes and its children
  in document order.

  A name is a local name and, when the node is in a namespace, the declaration it
  refers to. lxml shows an element's name as \<^verbatim>\<open>elem.tag\<close>, the string \<^verbatim>\<open>{uri}local\<close> or
  just \<^verbatim>\<open>local\<close>, and its prefix as \<^verbatim>\<open>elem.prefix\<close>. An attribute in a namespace always
  has a prefix. An element tree may have no root (\<^verbatim>\<open>getroot()\<close> is then \<^verbatim>\<open>None\<close>).
\<close>

datatype qname = QName (ns_ref: "(string option \<times> string) option") (localname: string)

datatype attr_name = AttrName (attr_ns: "(string \<times> string) option") (attr_local: string)

datatype node =
    Element qname "(string option \<times> string) list" "(attr_name \<times> string) list" "node list"
  | Comment string
  | ProcessingInstruction string string

datatype element_tree = ElementTree (getroot: "node option")

text \<open>
  What the code reads from a node. A comment or processing instruction has no
  children (\<^verbatim>\<open>len\<close> is 0, iterating gives nothing), no attributes and no declarations,
  and its \<^verbatim>\<open>tag\<close> is not a string, so it equals no tag name.
\<close>

fun children :: "node \<Rightarrow> node list" where
  "children (Element t decls at cs) = cs"
| "children (Comment c) = []"
| "children (ProcessingInstruction tg c) = []"

fun nsdecls :: "node \<Rightarrow> (string option \<times> string) list" where
  "nsdecls (Element t decls at cs) = decls"
| "nsdecls (Comment c) = []"
| "nsdecls (ProcessingInstruction tg c) = []"

fun attrib :: "node \<Rightarrow> (attr_name \<times> string) list" where
  "attrib (Element t decls at cs) = at"
| "attrib (Comment c) = []"
| "attrib (ProcessingInstruction tg c) = []"

text \<open>\<^verbatim>\<open>n.tag == name\<close> for a plain tag name: an element in no namespace with that local name.\<close>

fun has_tag :: "string \<Rightarrow> node \<Rightarrow> bool" where
  "has_tag name (Element t decls at cs) \<longleftrightarrow> t = QName None name"
| "has_tag name (Comment c) \<longleftrightarrow> False"
| "has_tag name (ProcessingInstruction tg c) \<longleftrightarrow> False"

text \<open>
  The exceptions that leave \<^verbatim>\<open>parse_reqif\<close>. A bare \<^verbatim>\<open>raise NotImplementedError\<close> has
  no arguments, \<^verbatim>\<open>raise NotImplementedError(xml_core_content)\<close> has the one argument
  \<^verbatim>\<open>None\<close>; a failed \<^verbatim>\<open>assert\<close> is an \<^verbatim>\<open>AssertionError\<close> without a message (asserts are
  taken as enabled, the interpreter's default). \<^verbatim>\<open>ValueError\<close> is what lxml raises when
  \<^verbatim>\<open>etree.QName\<close> is given a comment or processing instruction, and when
  \<^verbatim>\<open>cleanup_namespaces\<close> is given a tree without root. A leaf parser may raise whatever
  it likes; \<open>LeafDecodeError\<close> stands for its own errors.
\<close>

datatype exn =
    AttributeError
  | KeyError "string option"
  | ValueError
  | NotImplementedError "string list"
  | AssertionError
  | UnboundLocalError string
  | LeafDecodeError string

text \<open>
  \<^verbatim>\<open>root.nsmap\<close>: for the root element, the prefix-to-URI dictionary of the declarations
  written on it.
\<close>

definition nsmap :: "node \<Rightarrow> string option \<rightharpoonup> string" where
  "nsmap e = map_of (nsdecls e)"

text \<open>\<^verbatim>\<open>e.find(name)\<close> with a plain tag name: the first direct child with that tag.\<close>

definition find_child :: "string \<Rightarrow> node \<Rightarrow> node option" where
  "find_child name e = List.find (has_tag name) (children e)"

subsection \<open>\<^verbatim>\<open>strip_namespace_from_xml\<close>\<close>

text \<open>
  The loop \<^verbatim>\<open>for elem in root_xml.getiterator(): elem.tag = etree.QName(elem).localname\<close>
  visits the nodes under the root in document order, the root first. On an element it
  replaces the tag by the local name, which takes the element out of its namespace. On
  a comment or processing instruction \<^verbatim>\<open>etree.QName(elem)\<close> raises \<^verbatim>\<open>ValueError\<close>: the loop
  ends there, with the elements before that node changed and the rest as they were.
  The result is the tree so far and whether the loop came to its end.
\<close>

fun strip_loop :: "node \<Rightarrow> node \<times> bool"
  and strip_loop_children :: "node list \<Rightarrow> node list \<times> bool" where
  "strip_loop (Element t decls at cs) =
     (case strip_loop_children cs of
        (cs', completed) \<Rightarrow> (Element (QName None (localname t)) decls at cs', completed))"
| "strip_loop (Comment c) = (Comment c, False)"
| "strip_loop (ProcessingInstruction tg c) = (ProcessingInstruction tg c, False)"
| "strip_loop_children [] = ([], True)"
| "strip_loop_children (n # rest) =
     (case strip_loop n of
        (n', False) \<Rightarrow> (n' # rest, False)
      | (n', True) \<Rightarrow>
          (case strip_loop_children rest of (rest', completed) \<Rightarrow> (n' # rest', completed)))"

text \<open>
  \<^verbatim>\<open>etree.cleanup_namespaces\<close> belongs to lxml, not to this repository. It is modelled
  from its documentation and from the comment at its call (``Remove unused namespace
  declarations''): a declaration written on an element stays when an element or an
  attribute of that element's subtree refers to it. A node refers to the nearest
  declaration of its prefix above it, so a reference below a child that declares the
  prefix again is a reference to the child's declaration; and a declaration with
  another prefix for the same URI is another declaration.
\<close>

fun refers_to :: "string option \<times> string \<Rightarrow> node \<Rightarrow> bool" where
  "refers_to d (Element t decls at cs) \<longleftrightarrow>
     ns_ref t = Some d \<or>
     list_ex (\<lambda>(a, v). map_option (\<lambda>(p, u). (Some p, u)) (attr_ns a) = Some d) at \<or>
     list_ex (\<lambda>c. fst d \<notin> fst ` set (nsdecls c) \<and> refers_to d c) cs"
| "refers_to d (Comment c) \<longleftrightarrow> False"
| "refers_to d (ProcessingInstruction tg c) \<longleftrightarrow> False"

fun cleanup_namespaces :: "node \<Rightarrow> node" where
  "cleanup_namespaces (Element t decls at cs) =
     Element t (filter (\<lambda>d. refers_to d (Element t decls at cs)) decls) at
       (map cleanup_namespaces cs)"
| "cleanup_namespaces (Comment c) = Comment c"
| "cleanup_namespaces (ProcessingInstruction tg c) = ProcessingInstruction tg c"

text \<open>
  The tree is changed in place and returned: the second component is the caller's tree
  as the call leaves it. Without a root the loop visits nothing and
  \<^verbatim>\<open>cleanup_namespaces\<close> raises.
\<close>

definition strip_namespace_from_xml :: "element_tree \<Rightarrow> (exn + unit) \<times> element_tree" where
  "strip_namespace_from_xml root_xml =
     (case getroot root_xml of
        None \<Rightarrow> (Inl ValueError, root_xml)
      | Some r \<Rightarrow>
          (case strip_loop r of
             (r', False) \<Rightarrow> (Inl ValueError, ElementTree (Some r'))
           | (r', True) \<Rightarrow> (Inr (), ElementTree (Some (cleanup_namespaces r')))))"

section \<open>The leaf parsers and the bundle\<close>

text \<open>
  The five leaf parsers (\<^verbatim>\<open>DataTypeParser.parse\<close>, \<^verbatim>\<open>SpecObjectTypeParser.parse\<close>,
  \<^verbatim>\<open>ReqIFSpecificationParser.parse\<close>, \<^verbatim>\<open>SpecRelationParser.parse\<close>,
  \<^verbatim>\<open>SpecObjectParser.parse\<close>) and the classes of the objects they return are imported by
  \<^verbatim>\<open>parser.py\<close> and not defined there. They are parameters of the model: a function
  from a node to an exception or an object, and the fields \<^verbatim>\<open>parse_reqif\<close> reads from the
  objects (\<^verbatim>\<open>identifier\<close>, \<^verbatim>\<open>source\<close>, \<^verbatim>\<open>target\<close>).
\<close>

record ('dt, 'sot, 'so, 'sr, 'sp) leaf_parsers =
  DataTypeParser_parse :: "node \<Rightarrow> exn + 'dt"
  data_type_identifier :: "'dt \<Rightarrow> string"
  SpecObjectTypeParser_parse :: "node \<Rightarrow> exn + 'sot"
  ReqIFSpecificationParser_parse :: "node \<Rightarrow> exn + 'sp"
  SpecRelationParser_parse :: "node \<Rightarrow> exn + 'sr"
  spec_relation_source :: "'sr \<Rightarrow> string"
  spec_relation_target :: "'sr \<Rightarrow> string"
  SpecObjectParser_parse :: "node \<Rightarrow> exn + 'so"
  spec_object_identifier :: "'so \<Rightarrow> string"

text \<open>
  A Python dictionary with string keys. \<open>default_factory\<close> is \<open>None\<close> for a plain
  \<^verbatim>\<open>dict\<close>; for \<^verbatim>\<open>defaultdict(list)\<close> it holds the value the factory makes, the empty
  list. \<^verbatim>\<open>d[k]\<close> on a key that is not there raises \<^verbatim>\<open>KeyError\<close> in a plain dictionary;
  in a \<^verbatim>\<open>defaultdict\<close> it stores the factory's value under \<open>k\<close> and returns it.
\<close>

record 'v py_dict =
  default_factory :: "'v option"
  items :: "string \<rightharpoonup> 'v"

definition getitem :: "'v py_dict \<Rightarrow> string \<Rightarrow> (exn + 'v) \<times> 'v py_dict" where
  "getitem d k =
     (case items d k of
        Some v \<Rightarrow> (Inr v, d)
      | None \<Rightarrow>
          (case default_factory d of
             None \<Rightarrow> (Inl (KeyError (Some k)), d)
           | Some v0 \<Rightarrow> (Inr v0, d\<lparr>items := (items d)(k \<mapsto> v0)\<rparr>)))"

definition dict_literal :: "'v py_dict" where
  "dict_literal = \<lparr>default_factory = None, items = Map.empty\<rparr>"

definition defaultdict_list :: "'a list py_dict" where
  "defaultdict_list = \<lparr>default_factory = Some [], items = Map.empty\<rparr>"

datatype 'so ReqIFReqIFContent = ReqIFReqIFContent (spec_objects: "'so list")

datatype 'so ReqIFCoreContent = ReqIFCoreContent (req_if_content: "'so ReqIFReqIFContent")

text \<open>
  \<^verbatim>\<open>ReqIFBundle\<close> is imported from \<^verbatim>\<open>reqif.reqif_bundle\<close>. The record has the fields of
  the constructor call at the end of \<^verbatim>\<open>parse_reqif\<close>, under the keyword names used
  there.
\<close>

record ('dt, 'sot, 'so, 'sr, 'sp) ReqIFBundle =
  namespace :: "string option"
  configuration :: "string option"
  core_content :: "'so ReqIFCoreContent option"
  data_types :: "'dt list"
  spec_object_types :: "'sot list"
  spec_objects_lookup :: "'so py_dict"
  spec_relations :: "'sr list"
  spec_relations_parent_lookup :: "string list py_dict"
  specifications :: "'sp list"

text \<open>
  Modelled from the spec: \<^verbatim>\<open>ReqIFBundle.create_empty\<close> is not in \<^verbatim>\<open>parser.py\<close>. The
  spec (section 4.5) says of the empty bundle: ``All sequence fields are empty, all
  mapping fields are empty, namespace/configurationNamespace are still populated from
  the root element if present.'' The spec does not say that a mapping of the empty
  bundle has a default, so both are plain empty dictionaries, and there is no core
  content.
\<close>

definition create_empty ::
  "string option \<Rightarrow> string option \<Rightarrow> ('dt, 'sot, 'so, 'sr, 'sp) ReqIFBundle" where
  "create_empty ns cfg =
     \<lparr>namespace = ns, configuration = cfg, core_content = None, data_types = [],
      spec_object_types = [], spec_objects_lookup = dict_literal, spec_relations = [],
      spec_relations_parent_lookup = dict_literal, specifications = []\<rparr>"

section \<open>The loops of \<^verbatim>\<open>parse_reqif\<close>\<close>

text \<open>
  Each loop is a recursion over the children still to visit, with the variables the
  loop updates as further arguments. An exception of a leaf parser ends the loop and
  is the result.
\<close>

text \<open>Lines 101 to 106: the data types and their dictionary.\<close>

fun data_types_loop ::
  "('dt, 'sot, 'so, 'sr, 'sp) leaf_parsers \<Rightarrow> node list \<Rightarrow> 'dt list \<Rightarrow> 'dt py_dict
     \<Rightarrow> exn + ('dt list \<times> 'dt py_dict)" where
  "data_types_loop P [] acc lookup = Inr (acc, lookup)"
| "data_types_loop P (xml_data_type # rest) acc lookup =
     (case DataTypeParser_parse P xml_data_type of
        Inl e \<Rightarrow> Inl e
      | Inr data_type \<Rightarrow>
          data_types_loop P rest (acc @ [data_type])
            (lookup\<lparr>items := (items lookup)(data_type_identifier P data_type \<mapsto> data_type)\<rparr>))"

text \<open>
  Lines 138 to 142. The \<^verbatim>\<open>append\<close> is outside the \<^verbatim>\<open>if\<close>: it runs for every child. The
  variable \<^verbatim>\<open>spec_type\<close> is unbound (\<open>None\<close> below) until the first
  \<^verbatim>\<open>SPEC-OBJECT-TYPE\<close> child has been parsed, and reading it then raises
  \<^verbatim>\<open>UnboundLocalError\<close>.
\<close>

fun spec_object_types_loop ::
  "('dt, 'sot, 'so, 'sr, 'sp) leaf_parsers \<Rightarrow> node list \<Rightarrow> 'sot option \<Rightarrow> 'sot list
     \<Rightarrow> exn + 'sot list" where
  "spec_object_types_loop P [] spec_type acc = Inr acc"
| "spec_object_types_loop P (xml_spec_object_type_xml # rest) spec_type acc =
     (if has_tag ''SPEC-OBJECT-TYPE'' xml_spec_object_type_xml
      then (case SpecObjectTypeParser_parse P xml_spec_object_type_xml of
              Inl e \<Rightarrow> Inl e
            | Inr parsed \<Rightarrow> spec_object_types_loop P rest (Some parsed) (acc @ [parsed]))
      else (case spec_type of
              None \<Rightarrow> Inl (UnboundLocalError ''spec_type'')
            | Some bound \<Rightarrow> spec_object_types_loop P rest spec_type (acc @ [bound])))"

text \<open>Lines 143 to 149: the specifications.\<close>

fun specifications_loop ::
  "('dt, 'sot, 'so, 'sr, 'sp) leaf_parsers \<Rightarrow> node list \<Rightarrow> 'sp list \<Rightarrow> exn + 'sp list" where
  "specifications_loop P [] acc = Inr acc"
| "specifications_loop P (xml_specification # rest) acc =
     (case ReqIFSpecificationParser_parse P xml_specification of
        Inl e \<Rightarrow> Inl e
      | Inr specification \<Rightarrow> specifications_loop P rest (acc @ [specification]))"

text \<open>
  Lines 151 to 158: the relations, and for each the target appended to the list that
  the \<^verbatim>\<open>defaultdict\<close> holds for the source.
\<close>

fun spec_relations_loop ::
  "('dt, 'sot, 'so, 'sr, 'sp) leaf_parsers \<Rightarrow> node list \<Rightarrow> 'sr list \<Rightarrow> string list py_dict
     \<Rightarrow> exn + ('sr list \<times> string list py_dict)" where
  "spec_relations_loop P [] acc lookup = Inr (acc, lookup)"
| "spec_relations_loop P (xml_spec_relation # rest) acc lookup =
     (case SpecRelationParser_parse P xml_spec_relation of
        Inl e \<Rightarrow> Inl e
      | Inr spec_relation \<Rightarrow>
          (case getitem lookup (spec_relation_source P spec_relation) of
             (Inl e, lookup') \<Rightarrow> Inl e
           | (Inr targets, lookup') \<Rightarrow>
               spec_relations_loop P rest (acc @ [spec_relation])
                 (lookup'\<lparr>items := (items lookup')(spec_relation_source P spec_relation \<mapsto>
                    targets @ [spec_relation_target P spec_relation])\<rparr>)))"

text \<open>Lines 160 to 165: the spec objects and their dictionary.\<close>

fun spec_objects_loop ::
  "('dt, 'sot, 'so, 'sr, 'sp) leaf_parsers \<Rightarrow> node list \<Rightarrow> 'so list \<Rightarrow> 'so py_dict
     \<Rightarrow> exn + ('so list \<times> 'so py_dict)" where
  "spec_objects_loop P [] acc lookup = Inr (acc, lookup)"
| "spec_objects_loop P (xml_spec_object # rest) acc lookup =
     (case SpecObjectParser_parse P xml_spec_object of
        Inl e \<Rightarrow> Inl e
      | Inr spec_object \<Rightarrow>
          spec_objects_loop P rest (acc @ [spec_object])
            (lookup\<lparr>items := (items lookup)(spec_object_identifier P spec_object \<mapsto> spec_object)\<rparr>))"

section \<open>\<^verbatim>\<open>parse_reqif\<close>\<close>

text \<open>Sequencing of steps that may raise.\<close>

fun and_then :: "exn + 'a \<Rightarrow> ('a \<Rightarrow> exn + 'b) \<Rightarrow> exn + 'b" where
  "and_then (Inl e) f = Inl e"
| "and_then (Inr x) f = f x"

text \<open>\<^verbatim>\<open>assert x is not None\<close>.\<close>

fun assert_is_not_None :: "'a option \<Rightarrow> exn + 'a" where
  "assert_is_not_None None = Inl AssertionError"
| "assert_is_not_None (Some x) = Inr x"

text \<open>
  Lines 98 to 182, from \<^verbatim>\<open>REQ-IF-CONTENT\<close> on. The order is the order of the source:
  the data types are parsed before \<^verbatim>\<open>SPEC-OBJECTS\<close> and \<^verbatim>\<open>SPECIFICATIONS\<close> are asserted,
  and the joint test of \<^verbatim>\<open>SPEC-TYPES\<close> and \<^verbatim>\<open>SPEC-OBJECTS\<close> (line 135) comes after the
  assertions.
\<close>

definition parse_req_if_content ::
  "('dt, 'sot, 'so, 'sr, 'sp) leaf_parsers \<Rightarrow> string \<Rightarrow> string \<Rightarrow> node
     \<Rightarrow> exn + ('dt, 'sot, 'so, 'sr, 'sp) ReqIFBundle" where
  "parse_req_if_content P ns cfg xml_req_if_content =
     and_then (assert_is_not_None (find_child ''DATATYPES'' xml_req_if_content)) (\<lambda>xml_data_types.
     and_then (data_types_loop P (children xml_data_types) [] dict_literal) (\<lambda>(dts, data_types_lookup).
     let xml_spec_types = find_child ''SPEC-TYPES'' xml_req_if_content in
     and_then (assert_is_not_None (find_child ''SPEC-OBJECTS'' xml_req_if_content)) (\<lambda>xml_spec_objects.
     let xml_spec_relations =
           (case find_child ''SPEC-RELATIONS'' xml_req_if_content of
              None \<Rightarrow> [] | Some section \<Rightarrow> children section) in
     and_then (assert_is_not_None (find_child ''SPECIFICATIONS'' xml_req_if_content)) (\<lambda>xml_specifications.
     and_then (case xml_spec_types of
                 None \<Rightarrow> Inl (NotImplementedError [])
               | Some section \<Rightarrow> Inr section) (\<lambda>xml_spec_types.
     and_then (spec_object_types_loop P (children xml_spec_types) None []) (\<lambda>sots.
     and_then (specifications_loop P (children xml_specifications) []) (\<lambda>sps.
     and_then (spec_relations_loop P xml_spec_relations [] defaultdict_list) (\<lambda>(srs, parent_lookup).
     and_then (spec_objects_loop P (children xml_spec_objects) [] dict_literal) (\<lambda>(sos, objects_lookup).
     Inr \<lparr>namespace = Some ns, configuration = Some cfg,
          core_content = Some (ReqIFCoreContent (ReqIFReqIFContent sos)),
          data_types = dts, spec_object_types = sots, spec_objects_lookup = objects_lookup,
          spec_relations = srs, spec_relations_parent_lookup = parent_lookup,
          specifications = sps\<rparr>)))))))))"

text \<open>Lines 64 to 96, on the root of the stripped tree.\<close>

definition parse_stripped ::
  "('dt, 'sot, 'so, 'sr, 'sp) leaf_parsers \<Rightarrow> string \<Rightarrow> string \<Rightarrow> node option
     \<Rightarrow> exn + ('dt, 'sot, 'so, 'sr, 'sp) ReqIFBundle" where
  "parse_stripped P ns cfg root =
     (case root of
        None \<Rightarrow> Inl (NotImplementedError [])
      | Some xml_reqif \<Rightarrow>
          if \<not> has_tag ''REQ-IF'' xml_reqif then Inl (NotImplementedError [])
          else if length (children xml_reqif) = 0 then Inr (create_empty (Some ns) (Some cfg))
          else
            (case find_child ''THE-HEADER'' xml_reqif of
               None \<Rightarrow> Inr (create_empty (Some ns) (Some cfg))
             | Some xml_the_header \<Rightarrow>
                 (case find_child ''CORE-CONTENT'' xml_reqif of
                    None \<Rightarrow> Inl (NotImplementedError [''None''])
                  | Some xml_core_content \<Rightarrow>
                      and_then (assert_is_not_None (find_child ''REQ-IF-CONTENT'' xml_core_content))
                        (parse_req_if_content P ns cfg))))"

text \<open>
  Lines 52 to 60 and the rest through \<open>parse_stripped\<close>. The result is the bundle or
  the exception, together with the tree as the call leaves it: \<^verbatim>\<open>nsmap[None]\<close> and
  \<^verbatim>\<open>nsmap["configuration"]\<close> are plain subscripts and raise \<^verbatim>\<open>KeyError\<close> before the tree
  is touched; after them the tree is stripped in place, as far as the stripping gets,
  whatever happens next.
\<close>

definition parse_reqif ::
  "('dt, 'sot, 'so, 'sr, 'sp) leaf_parsers \<Rightarrow> element_tree
     \<Rightarrow> (exn + ('dt, 'sot, 'so, 'sr, 'sp) ReqIFBundle) \<times> element_tree" where
  "parse_reqif P xml_reqif_root =
     (case getroot xml_reqif_root of
        None \<Rightarrow> (Inl AttributeError, xml_reqif_root)
      | Some root \<Rightarrow>
          (case nsmap root None of
             None \<Rightarrow> (Inl (KeyError None), xml_reqif_root)
           | Some ns \<Rightarrow>
               (case nsmap root (Some ''configuration'') of
                  None \<Rightarrow> (Inl (KeyError (Some ''configuration'')), xml_reqif_root)
                | Some cfg \<Rightarrow>
                    (case strip_namespace_from_xml xml_reqif_root of
                       (Inl e, xml_reqif_root_nons) \<Rightarrow> (Inl e, xml_reqif_root_nons)
                     | (Inr u, xml_reqif_root_nons) \<Rightarrow>
                         (parse_stripped P ns cfg (getroot xml_reqif_root_nons),
                          xml_reqif_root_nons)))))"

section \<open>Describing a document\<close>

text \<open>
  Names for what the claims say about a document, as functions of the tree that
  \<^verbatim>\<open>parse_reqif\<close> is given. \<open>comment_free\<close>: there is no comment and no processing
  instruction at or below the node. \<open>strip_tags\<close> is the tree with every element tag
  replaced by its local name; it is what the stripping loop makes of a tree when it
  comes to its end.
\<close>

fun comment_free :: "node \<Rightarrow> bool" where
  "comment_free (Element t decls at cs) \<longleftrightarrow> list_all comment_free cs"
| "comment_free (Comment c) \<longleftrightarrow> False"
| "comment_free (ProcessingInstruction tg c) \<longleftrightarrow> False"

fun strip_tags :: "node \<Rightarrow> node" where
  "strip_tags (Element t decls at cs) = Element (QName None (localname t)) decls at (map strip_tags cs)"
| "strip_tags (Comment c) = Comment c"
| "strip_tags (ProcessingInstruction tg c) = ProcessingInstruction tg c"

definition no_comments :: "element_tree \<Rightarrow> bool" where
  "no_comments t \<longleftrightarrow> (case getroot t of None \<Rightarrow> True | Some r \<Rightarrow> comment_free r)"

text \<open>
  The lookups of \<^verbatim>\<open>parse_reqif\<close> are by local name, on the stripped tree. The sections
  of a document are named accordingly: \<^verbatim>\<open>THE-HEADER\<close> and \<^verbatim>\<open>CORE-CONTENT\<close> under the root,
  \<^verbatim>\<open>REQ-IF-CONTENT\<close> under \<^verbatim>\<open>CORE-CONTENT\<close>, and the named sections under
  \<^verbatim>\<open>REQ-IF-CONTENT\<close>. \<open>section_children\<close> is empty for a section that is not there.
\<close>

definition stripped_root :: "element_tree \<Rightarrow> node option" where
  "stripped_root t = map_option (\<lambda>r. cleanup_namespaces (strip_tags r)) (getroot t)"

definition the_header :: "element_tree \<Rightarrow> node option" where
  "the_header t = Option.bind (stripped_root t) (find_child ''THE-HEADER'')"

definition core_content_section :: "element_tree \<Rightarrow> node option" where
  "core_content_section t = Option.bind (stripped_root t) (find_child ''CORE-CONTENT'')"

definition req_if_content_section :: "element_tree \<Rightarrow> node option" where
  "req_if_content_section t = Option.bind (core_content_section t) (find_child ''REQ-IF-CONTENT'')"

definition section_of :: "string \<Rightarrow> element_tree \<Rightarrow> node option" where
  "section_of name t = Option.bind (req_if_content_section t) (find_child name)"

definition section_children :: "string \<Rightarrow> element_tree \<Rightarrow> node list" where
  "section_children name t = (case section_of name t of None \<Rightarrow> [] | Some s \<Rightarrow> children s)"

definition root_nsmap :: "element_tree \<Rightarrow> string option \<rightharpoonup> string" where
  "root_nsmap t = (case getroot t of None \<Rightarrow> Map.empty | Some root \<Rightarrow> nsmap root)"

fun element_localname :: "node \<Rightarrow> string option" where
  "element_localname (Element t decls at cs) = Some (localname t)"
| "element_localname (Comment c) = None"
| "element_localname (ProcessingInstruction tg c) = None"

definition root_localname :: "element_tree \<Rightarrow> string option" where
  "root_localname t = Option.bind (getroot t) element_localname"

definition root_children :: "element_tree \<Rightarrow> node list" where
  "root_children t = (case getroot t of None \<Rightarrow> [] | Some root \<Rightarrow> children root)"

text \<open>
  The root declares a default namespace and a namespace for the prefix
  \<^verbatim>\<open>configuration\<close>, as the input contract of the spec (section 6) asks.
\<close>

definition declares_namespaces :: "element_tree \<Rightarrow> bool" where
  "declares_namespaces t \<longleftrightarrow>
     root_nsmap t None \<noteq> None \<and> root_nsmap t (Some ''configuration'') \<noteq> None"

text \<open>
  A document with its namespaces declared, no comment or processing instruction, the
  root \<^verbatim>\<open>REQ-IF\<close>, a header and the four sections under \<^verbatim>\<open>REQ-IF-CONTENT\<close> that
  \<^verbatim>\<open>parse_reqif\<close> insists on. \<^verbatim>\<open>SPEC-RELATIONS\<close> is not asked for.
\<close>

definition well_structured :: "element_tree \<Rightarrow> bool" where
  "well_structured t \<longleftrightarrow>
     declares_namespaces t \<and> no_comments t \<and> root_localname t = Some ''REQ-IF'' \<and>
     the_header t \<noteq> None \<and>
     section_of ''DATATYPES'' t \<noteq> None \<and> section_of ''SPEC-TYPES'' t \<noteq> None \<and>
     section_of ''SPEC-OBJECTS'' t \<noteq> None \<and> section_of ''SPECIFICATIONS'' t \<noteq> None"

text \<open>The test of line 140 on a child of \<^verbatim>\<open>SPEC-TYPES\<close>.\<close>

definition is_spec_object_type :: "node \<Rightarrow> bool" where
  "is_spec_object_type c \<longleftrightarrow> has_tag ''SPEC-OBJECT-TYPE'' c"

section \<open>The indexes, said directly\<close>

text \<open>
  The dictionary that the assignments \<^verbatim>\<open>lookup[x.identifier] = x\<close> leave behind when they
  are made for the objects of a list in order.
\<close>

definition fold_lookup :: "('a \<Rightarrow> string) \<Rightarrow> 'a list \<Rightarrow> (string \<rightharpoonup> 'a) \<Rightarrow> (string \<rightharpoonup> 'a)" where
  "fold_lookup key xs m = fold (\<lambda>x m. m(key x \<mapsto> x)) xs m"

text \<open>
  The targets of the relations with source \<open>s\<close>, in the order of the relations, and the
  index that has an entry for exactly the sources that occur.
\<close>

definition targets_by_source ::
  "('dt, 'sot, 'so, 'sr, 'sp) leaf_parsers \<Rightarrow> 'sr list \<Rightarrow> string \<Rightarrow> string list" where
  "targets_by_source P srs s =
     map (spec_relation_target P) (filter (\<lambda>r. spec_relation_source P r = s) srs)"

definition relation_index ::
  "('dt, 'sot, 'so, 'sr, 'sp) leaf_parsers \<Rightarrow> 'sr list \<Rightarrow> string \<rightharpoonup> string list" where
  "relation_index P srs s =
     (if s \<in> spec_relation_source P ` set srs then Some (targets_by_source P srs s) else None)"

definition extend_index ::
  "('dt, 'sot, 'so, 'sr, 'sp) leaf_parsers \<Rightarrow> 'sr list \<Rightarrow> (string \<rightharpoonup> string list)
     \<Rightarrow> (string \<rightharpoonup> string list)" where
  "extend_index P srs m s =
     (if s \<in> spec_relation_source P ` set srs
      then Some ((case m s of None \<Rightarrow> [] | Some v \<Rightarrow> v) @ targets_by_source P srs s)
      else m s)"

definition add_target ::
  "(string \<rightharpoonup> string list) \<Rightarrow> string \<Rightarrow> string \<Rightarrow> (string \<rightharpoonup> string list)" where
  "add_target m k t = m(k \<mapsto> (case m k of None \<Rightarrow> [] | Some v \<Rightarrow> v) @ [t])"

section \<open>Sample documents and leaf parsers\<close>

text \<open>
  Concrete documents on which the statements below are tried. The elements of a
  sample are in the default namespace \<open>reqif_uri\<close>, which the root declares together
  with the prefix \<^verbatim>\<open>configuration\<close>, unless said otherwise.
\<close>

definition reqif_uri :: string where
  "reqif_uri = ''http://www.omg.org/reqif''"

definition configuration_uri :: string where
  "configuration_uri = ''http://eclipse.org/rmf''"

definition both_declarations :: "(string option \<times> string) list" where
  "both_declarations = [(None, reqif_uri), (Some ''configuration'', configuration_uri)]"

definition default_ns :: "(string option \<times> string) option" where
  "default_ns = Some (None, reqif_uri)"

definition branch :: "string \<Rightarrow> node list \<Rightarrow> node" where
  "branch name cs = Element (QName default_ns name) [] [] cs"

definition leaf :: "string \<Rightarrow> (string \<times> string) list \<Rightarrow> node" where
  "leaf name attrs = Element (QName default_ns name) [] (map (\<lambda>(k, v). (AttrName None k, v)) attrs) []"

definition document ::
  "(string option \<times> string) list \<Rightarrow> (string option \<times> string) option \<Rightarrow> string \<Rightarrow> node list
     \<Rightarrow> element_tree" where
  "document decls u root_name cs = ElementTree (Some (Element (QName u root_name) decls [] cs))"

definition reqif_document :: "node list \<Rightarrow> element_tree" where
  "reqif_document sections =
     document both_declarations default_ns ''REQ-IF''
       [branch ''THE-HEADER'' [], branch ''CORE-CONTENT'' [branch ''REQ-IF-CONTENT'' sections]]"

definition sample_datatypes :: node where
  "sample_datatypes =
     branch ''DATATYPES'' [leaf ''DATATYPE-DEFINITION-STRING'' [(''IDENTIFIER'', ''DT-1'')]]"

definition sample_spec_types :: node where
  "sample_spec_types =
     branch ''SPEC-TYPES'' [leaf ''SPEC-OBJECT-TYPE'' [(''IDENTIFIER'', ''SOT-1'')]]"

definition sample_spec_objects :: node where
  "sample_spec_objects =
     branch ''SPEC-OBJECTS''
       [leaf ''SPEC-OBJECT'' [(''IDENTIFIER'', ''SO-1''), (''LONG-NAME'', ''first'')],
        leaf ''SPEC-OBJECT'' [(''IDENTIFIER'', ''SO-2''), (''LONG-NAME'', ''second'')]]"

definition sample_spec_relations :: node where
  "sample_spec_relations =
     branch ''SPEC-RELATIONS''
       [leaf ''SPEC-RELATION'' [(''SOURCE'', ''SO-1''), (''TARGET'', ''SO-2'')],
        leaf ''SPEC-RELATION'' [(''SOURCE'', ''SO-2''), (''TARGET'', ''SO-1'')],
        leaf ''SPEC-RELATION'' [(''SOURCE'', ''SO-1''), (''TARGET'', ''SO-1'')]]"

definition sample_specifications :: node where
  "sample_specifications =
     branch ''SPECIFICATIONS'' [leaf ''SPECIFICATION'' [(''IDENTIFIER'', ''SPEC-1'')]]"

definition sample_document :: element_tree where
  "sample_document =
     reqif_document [sample_datatypes, sample_spec_types, sample_spec_objects,
       sample_spec_relations, sample_specifications]"

text \<open>
  Leaf parsers for the samples: an object is the value of the \<^verbatim>\<open>IDENTIFIER\<close> attribute
  (with the \<^verbatim>\<open>LONG-NAME\<close> for a spec object, so that two objects with one identifier can
  be told apart), a relation is its \<^verbatim>\<open>SOURCE\<close> and \<^verbatim>\<open>TARGET\<close>. A missing attribute is
  the parser's error.
\<close>

definition required :: "string \<Rightarrow> node \<Rightarrow> exn + string" where
  "required name e =
     (case map_of (attrib e) (AttrName None name) of
        None \<Rightarrow> Inl (LeafDecodeError name)
      | Some v \<Rightarrow> Inr v)"

definition sample_parsers ::
  "(string, string, string \<times> string, string \<times> string, string) leaf_parsers" where
  "sample_parsers =
     \<lparr>DataTypeParser_parse = required ''IDENTIFIER'',
      data_type_identifier = (\<lambda>d. d),
      SpecObjectTypeParser_parse = required ''IDENTIFIER'',
      ReqIFSpecificationParser_parse = required ''IDENTIFIER'',
      SpecRelationParser_parse =
        (\<lambda>e. and_then (required ''SOURCE'' e) (\<lambda>s. and_then (required ''TARGET'' e) (\<lambda>t. Inr (s, t)))),
      spec_relation_source = fst,
      spec_relation_target = snd,
      SpecObjectParser_parse =
        (\<lambda>e. and_then (required ''IDENTIFIER'' e) (\<lambda>i. and_then (required ''LONG-NAME'' e) (\<lambda>n. Inr (i, n)))),
      spec_object_identifier = fst\<rparr>"

text \<open>
  Documents for the single claims. A commented document has a comment as the first
  child of its root, as an exporting tool may leave one.
\<close>

definition commented_document :: "node list \<Rightarrow> element_tree" where
  "commented_document sections =
     document both_declarations default_ns ''REQ-IF''
       [Comment ''exported 2024-01-01'', branch ''THE-HEADER'' [],
        branch ''CORE-CONTENT'' [branch ''REQ-IF-CONTENT'' sections]]"

definition undeclared_document :: "string \<Rightarrow> node list \<Rightarrow> element_tree" where
  "undeclared_document root_name cs = document [] None root_name cs"

definition no_configuration_document :: element_tree where
  "no_configuration_document = document [(None, reqif_uri)] default_ns ''REQ-IF'' []"

definition mixed_spec_types :: node where
  "mixed_spec_types =
     branch ''SPEC-TYPES''
       [leaf ''SPEC-OBJECT-TYPE'' [(''IDENTIFIER'', ''SOT-1'')],
        leaf ''SPEC-RELATION-TYPE'' [(''IDENTIFIER'', ''SRT-1'')]]"

definition mixed_spec_types_reversed :: node where
  "mixed_spec_types_reversed =
     branch ''SPEC-TYPES''
       [leaf ''SPEC-RELATION-TYPE'' [(''IDENTIFIER'', ''SRT-1'')],
        leaf ''SPEC-OBJECT-TYPE'' [(''IDENTIFIER'', ''SOT-1'')]]"

definition interleaved_spec_types :: node where
  "interleaved_spec_types =
     branch ''SPEC-TYPES''
       [leaf ''SPEC-OBJECT-TYPE'' [(''IDENTIFIER'', ''SOT-1'')],
        leaf ''SPECIFICATION-TYPE'' [(''IDENTIFIER'', ''ST-1'')],
        leaf ''SPEC-OBJECT-TYPE'' [(''IDENTIFIER'', ''SOT-2'')]]"

definition mixed_types_document :: element_tree where
  "mixed_types_document =
     reqif_document [sample_datatypes, mixed_spec_types, sample_spec_objects,
       sample_spec_relations, sample_specifications]"

definition mixed_types_reversed_document :: element_tree where
  "mixed_types_reversed_document =
     reqif_document [sample_datatypes, mixed_spec_types_reversed, sample_spec_objects,
       sample_spec_relations, sample_specifications]"

definition interleaved_types_document :: element_tree where
  "interleaved_types_document =
     reqif_document [sample_datatypes, interleaved_spec_types, sample_spec_objects,
       sample_spec_relations, sample_specifications]"

definition duplicate_spec_objects :: node where
  "duplicate_spec_objects =
     branch ''SPEC-OBJECTS''
       [leaf ''SPEC-OBJECT'' [(''IDENTIFIER'', ''SO-1''), (''LONG-NAME'', ''first'')],
        leaf ''SPEC-OBJECT'' [(''IDENTIFIER'', ''SO-1''), (''LONG-NAME'', ''second'')]]"

definition duplicate_document :: element_tree where
  "duplicate_document =
     reqif_document [sample_datatypes, sample_spec_types, duplicate_spec_objects,
       sample_spec_relations, sample_specifications]"

definition duplicate_mixed_document :: element_tree where
  "duplicate_mixed_document =
     reqif_document [sample_datatypes, mixed_spec_types_reversed, duplicate_spec_objects,
       sample_spec_relations, sample_specifications]"

definition duplicate_commented_document :: element_tree where
  "duplicate_commented_document =
     commented_document [sample_datatypes, sample_spec_types, duplicate_spec_objects,
       sample_spec_relations, sample_specifications]"

definition no_relations_document :: element_tree where
  "no_relations_document =
     reqif_document [sample_datatypes, sample_spec_types, sample_spec_objects,
       sample_specifications]"

definition no_relations_mixed_document :: element_tree where
  "no_relations_mixed_document =
     reqif_document [sample_datatypes, mixed_spec_types_reversed, sample_spec_objects,
       sample_specifications]"

definition no_relations_commented_document :: element_tree where
  "no_relations_commented_document =
     commented_document [sample_datatypes, sample_spec_types, sample_spec_objects,
       sample_specifications]"

definition no_datatypes_document :: element_tree where
  "no_datatypes_document =
     reqif_document [sample_spec_types, sample_spec_objects, sample_spec_relations,
       sample_specifications]"

definition no_spec_types_document :: element_tree where
  "no_spec_types_document =
     reqif_document [sample_datatypes, sample_spec_objects, sample_spec_relations,
       sample_specifications]"

definition no_spec_objects_document :: element_tree where
  "no_spec_objects_document =
     reqif_document [sample_datatypes, sample_spec_types, sample_spec_relations,
       sample_specifications]"

definition no_specifications_document :: element_tree where
  "no_specifications_document =
     reqif_document [sample_datatypes, sample_spec_types, sample_spec_objects,
       sample_spec_relations]"

definition no_header_document :: element_tree where
  "no_header_document =
     document both_declarations default_ns ''REQ-IF''
       [branch ''CORE-CONTENT'' [branch ''REQ-IF-CONTENT'' []]]"

definition comment_only_document :: element_tree where
  "comment_only_document =
     document both_declarations default_ns ''REQ-IF'' [Comment ''no content yet'']"

definition other_root_commented_document :: element_tree where
  "other_root_commented_document =
     document both_declarations default_ns ''SPECIFICATION'' [Comment ''not a ReqIF file'']"

text \<open>
  The sample document written with the prefix \<^verbatim>\<open>reqif\<close> on every element instead of
  the default namespace.
\<close>

fun with_ns :: "(string option \<times> string) option \<Rightarrow> node \<Rightarrow> node" where
  "with_ns u (Element t decls at cs) = Element (QName u (localname t)) decls at (map (with_ns u) cs)"
| "with_ns u (Comment c) = Comment c"
| "with_ns u (ProcessingInstruction tg c) = ProcessingInstruction tg c"

definition prefixed_sample_document :: element_tree where
  "prefixed_sample_document =
     document (both_declarations @ [(Some ''reqif'', reqif_uri)]) (Some (Some ''reqif'', reqif_uri))
       ''REQ-IF''
       (map (with_ns (Some (Some ''reqif'', reqif_uri)))
          [branch ''THE-HEADER'' [],
           branch ''CORE-CONTENT''
             [branch ''REQ-IF-CONTENT''
                [sample_datatypes, sample_spec_types, sample_spec_objects,
                 sample_spec_relations, sample_specifications]]])"

section \<open>The loops, characterised\<close>

text \<open>
  A loop over the children of a section returns exactly when the leaf parser accepts
  every child, and then the sequence holds the parsed objects in the order of the
  children. The \<open>_D\<close> lemmas are the converse direction.
\<close>

lemma and_then_Inr_iff: "and_then m f = Inr y \<longleftrightarrow> (\<exists>x. m = Inr x \<and> f x = Inr y)"
  by (cases m) auto

lemma assert_is_not_None_Inr_iff: "assert_is_not_None x = Inr y \<longleftrightarrow> x = Some y"
  by (cases x) auto

lemma data_types_loop_Inr:
  "map (DataTypeParser_parse P) xs = map Inr ds \<Longrightarrow>
   data_types_loop P xs acc lk =
     Inr (acc @ ds, lk\<lparr>items := fold_lookup (data_type_identifier P) ds (items lk)\<rparr>)"
proof (induction xs arbitrary: ds acc lk)
  case Nil
  then show ?case by (simp add: fold_lookup_def)
next
  case (Cons x xs)
  then obtain d ds' where ds: "ds = d # ds'" "DataTypeParser_parse P x = Inr d"
    "map (DataTypeParser_parse P) xs = map Inr ds'"
    by (cases ds) auto
  show ?case using Cons.IH [OF ds(3)] ds(1,2) by (simp add: fold_lookup_def)
qed

lemma data_types_loop_Inr_D:
  "data_types_loop P xs acc lk = Inr res \<Longrightarrow>
   \<exists>ds. map (DataTypeParser_parse P) xs = map Inr ds"
proof (induction xs arbitrary: acc lk res)
  case Nil
  then show ?case by simp
next
  case (Cons x xs)
  from Cons.prems obtain d where d: "DataTypeParser_parse P x = Inr d"
    by (cases "DataTypeParser_parse P x") auto
  from Cons.prems d obtain acc' lk' where "data_types_loop P xs acc' lk' = Inr res"
    by (auto split: sum.splits prod.splits)
  from Cons.IH [OF this] obtain ds where "map (DataTypeParser_parse P) xs = map Inr ds" ..
  with d have "map (DataTypeParser_parse P) (x # xs) = map Inr (d # ds)" by simp
  then show ?case ..
qed

lemma spec_objects_loop_Inr:
  "map (SpecObjectParser_parse P) xs = map Inr ds \<Longrightarrow>
   spec_objects_loop P xs acc lk =
     Inr (acc @ ds, lk\<lparr>items := fold_lookup (spec_object_identifier P) ds (items lk)\<rparr>)"
proof (induction xs arbitrary: ds acc lk)
  case Nil
  then show ?case by (simp add: fold_lookup_def)
next
  case (Cons x xs)
  then obtain d ds' where ds: "ds = d # ds'" "SpecObjectParser_parse P x = Inr d"
    "map (SpecObjectParser_parse P) xs = map Inr ds'"
    by (cases ds) auto
  show ?case using Cons.IH [OF ds(3)] ds(1,2) by (simp add: fold_lookup_def)
qed

lemma spec_objects_loop_Inr_D:
  "spec_objects_loop P xs acc lk = Inr res \<Longrightarrow>
   \<exists>ds. map (SpecObjectParser_parse P) xs = map Inr ds"
proof (induction xs arbitrary: acc lk res)
  case Nil
  then show ?case by simp
next
  case (Cons x xs)
  from Cons.prems obtain d where d: "SpecObjectParser_parse P x = Inr d"
    by (cases "SpecObjectParser_parse P x") auto
  from Cons.prems d obtain acc' lk' where "spec_objects_loop P xs acc' lk' = Inr res"
    by (auto split: sum.splits prod.splits)
  from Cons.IH [OF this] obtain ds where "map (SpecObjectParser_parse P) xs = map Inr ds" ..
  with d have "map (SpecObjectParser_parse P) (x # xs) = map Inr (d # ds)" by simp
  then show ?case ..
qed

lemma specifications_loop_Inr:
  "map (ReqIFSpecificationParser_parse P) xs = map Inr ds \<Longrightarrow>
   specifications_loop P xs acc = Inr (acc @ ds)"
proof (induction xs arbitrary: ds acc)
  case Nil
  then show ?case by simp
next
  case (Cons x xs)
  then obtain d ds' where ds: "ds = d # ds'" "ReqIFSpecificationParser_parse P x = Inr d"
    "map (ReqIFSpecificationParser_parse P) xs = map Inr ds'"
    by (cases ds) auto
  show ?case using Cons.IH [OF ds(3)] ds(1,2) by simp
qed

lemma specifications_loop_Inr_D:
  "specifications_loop P xs acc = Inr res \<Longrightarrow>
   \<exists>ds. map (ReqIFSpecificationParser_parse P) xs = map Inr ds"
proof (induction xs arbitrary: acc res)
  case Nil
  then show ?case by simp
next
  case (Cons x xs)
  from Cons.prems obtain d where d: "ReqIFSpecificationParser_parse P x = Inr d"
    by (cases "ReqIFSpecificationParser_parse P x") auto
  from Cons.prems d have "specifications_loop P xs (acc @ [d]) = Inr res" by simp
  from Cons.IH [OF this] obtain ds where "map (ReqIFSpecificationParser_parse P) xs = map Inr ds" ..
  with d have "map (ReqIFSpecificationParser_parse P) (x # xs) = map Inr (d # ds)" by simp
  then show ?case ..
qed

text \<open>
  The relation loop from any \<^verbatim>\<open>defaultdict\<close>: every relation appends its target to the
  list of its source, making the list first where the source has none.
\<close>

lemma extend_index_Nil: "extend_index P [] m = m"
  by (rule ext) (simp add: extend_index_def)

lemma extend_index_Cons:
  "extend_index P (r # rs) m =
   extend_index P rs (add_target m (spec_relation_source P r) (spec_relation_target P r))"
  by (rule ext) (auto simp: extend_index_def targets_by_source_def filter_empty_conv image_iff
      add_target_def split: option.splits)

lemma extend_index_empty: "extend_index P srs Map.empty = relation_index P srs"
  by (rule ext) (simp add: extend_index_def relation_index_def)

lemma spec_relations_loop_step:
  assumes "SpecRelationParser_parse P x = Inr d" and "default_factory lk = Some []"
  shows "spec_relations_loop P (x # xs) acc lk =
     spec_relations_loop P xs (acc @ [d])
       (lk\<lparr>items := add_target (items lk) (spec_relation_source P d) (spec_relation_target P d)\<rparr>)"
proof (cases "items lk (spec_relation_source P d)")
  case None
  with assms show ?thesis by (simp add: getitem_def add_target_def)
next
  case (Some v)
  with assms show ?thesis by (simp add: getitem_def add_target_def)
qed

lemma spec_relations_loop_Inr:
  "map (SpecRelationParser_parse P) xs = map Inr ds \<Longrightarrow> default_factory lk = Some [] \<Longrightarrow>
   spec_relations_loop P xs acc lk =
     Inr (acc @ ds, lk\<lparr>items := extend_index P ds (items lk)\<rparr>)"
proof (induction xs arbitrary: ds acc lk)
  case Nil
  then show ?case by (simp add: extend_index_Nil)
next
  case (Cons x xs)
  then obtain d ds' where ds: "ds = d # ds'" "SpecRelationParser_parse P x = Inr d"
    "map (SpecRelationParser_parse P) xs = map Inr ds'"
    by (cases ds) auto
  let ?lk = "lk\<lparr>items := add_target (items lk) (spec_relation_source P d) (spec_relation_target P d)\<rparr>"
  have "default_factory ?lk = Some []" using Cons.prems(2) by simp
  from Cons.IH [OF ds(3) this, of "acc @ [d]"]
  show ?case
    by (simp add: spec_relations_loop_step [OF ds(2) Cons.prems(2)] ds(1) extend_index_Cons
        del: spec_relations_loop.simps)
qed

lemma spec_relations_loop_Inr_D:
  "spec_relations_loop P xs acc lk = Inr res \<Longrightarrow>
   \<exists>ds. map (SpecRelationParser_parse P) xs = map Inr ds"
proof (induction xs arbitrary: acc lk res)
  case Nil
  then show ?case by simp
next
  case (Cons x xs)
  from Cons.prems obtain d where d: "SpecRelationParser_parse P x = Inr d"
    by (cases "SpecRelationParser_parse P x") auto
  from Cons.prems d obtain acc' lk' where "spec_relations_loop P xs acc' lk' = Inr res"
    by (auto split: sum.splits prod.splits)
  from Cons.IH [OF this] obtain ds where "map (SpecRelationParser_parse P) xs = map Inr ds" ..
  with d have "map (SpecRelationParser_parse P) (x # xs) = map Inr (d # ds)" by simp
  then show ?case ..
qed

text \<open>
  The loop over \<^verbatim>\<open>SPEC-TYPES\<close> when every child is a \<^verbatim>\<open>SPEC-OBJECT-TYPE\<close>: the branch that
  reads \<^verbatim>\<open>spec_type\<close> without parsing is never taken.
\<close>

lemma spec_object_types_loop_all:
  "list_all (has_tag ''SPEC-OBJECT-TYPE'') xs \<Longrightarrow>
   map (SpecObjectTypeParser_parse P) xs = map Inr ds \<Longrightarrow>
   spec_object_types_loop P xs st acc = Inr (acc @ ds)"
proof (induction xs arbitrary: ds st acc)
  case Nil
  then show ?case by simp
next
  case (Cons x xs)
  then obtain d ds' where ds: "ds = d # ds'" "SpecObjectTypeParser_parse P x = Inr d"
    "map (SpecObjectTypeParser_parse P) xs = map Inr ds'"
    by (cases ds) auto
  from Cons.prems(1) have all: "list_all (has_tag ''SPEC-OBJECT-TYPE'') xs"
    and x: "has_tag ''SPEC-OBJECT-TYPE'' x" by simp_all
  show ?case using Cons.IH [OF all ds(3)] ds(1,2) x by simp
qed

lemma spec_object_types_loop_all_D:
  "list_all (has_tag ''SPEC-OBJECT-TYPE'') xs \<Longrightarrow>
   spec_object_types_loop P xs st acc = Inr res \<Longrightarrow>
   \<exists>ds. map (SpecObjectTypeParser_parse P) xs = map Inr ds"
proof (induction xs arbitrary: st acc res)
  case Nil
  then show ?case by simp
next
  case (Cons x xs)
  from Cons.prems(1) have all: "list_all (has_tag ''SPEC-OBJECT-TYPE'') xs"
    and x: "has_tag ''SPEC-OBJECT-TYPE'' x" by simp_all
  from Cons.prems(2) x obtain d where d: "SpecObjectTypeParser_parse P x = Inr d"
    by (cases "SpecObjectTypeParser_parse P x") auto
  from Cons.prems(2) x d have "spec_object_types_loop P xs (Some d) (acc @ [d]) = Inr res"
    by simp
  from Cons.IH [OF all this] obtain ds where "map (SpecObjectTypeParser_parse P) xs = map Inr ds" ..
  with d have "map (SpecObjectTypeParser_parse P) (x # xs) = map Inr (d # ds)" by simp
  then show ?case ..
qed

section \<open>\<^verbatim>\<open>parse_reqif\<close>, step by step\<close>

lemma find_child_Some_children: "find_child name e = Some c \<Longrightarrow> children e \<noteq> []"
  by (auto simp: find_child_def)

lemma has_tag_stripped:
  "has_tag name (cleanup_namespaces (strip_tags r)) \<longleftrightarrow> element_localname r = Some name"
  by (cases r) auto

lemma children_stripped:
  "children (cleanup_namespaces (strip_tags r)) = [] \<longleftrightarrow> children r = []"
  by (cases r) simp_all

text \<open>
  The stripping loop comes to its end exactly on a tree without comments and processing
  instructions, and then it has replaced every tag.
\<close>

lemma strip_loop_comment_free:
  "comment_free n \<Longrightarrow> strip_loop n = (strip_tags n, True)"
  "list_all comment_free ns \<Longrightarrow> strip_loop_children ns = (map strip_tags ns, True)"
  by (induction n and ns rule: strip_loop_strip_loop_children.induct) simp_all

lemma strip_loop_completed:
  "snd (strip_loop n) \<Longrightarrow> comment_free n"
  "snd (strip_loop_children ns) \<Longrightarrow> list_all comment_free ns"
  by (induction n and ns rule: strip_loop_strip_loop_children.induct)
    (auto split: prod.splits bool.splits)

lemma strip_namespace_from_xml_comment_free:
  assumes "getroot t = Some r" "comment_free r"
  shows "strip_namespace_from_xml t = (Inr (), ElementTree (Some (cleanup_namespaces (strip_tags r))))"
  using assms by (simp add: strip_namespace_from_xml_def strip_loop_comment_free)

lemma strip_namespace_from_xml_commented:
  assumes "getroot t = Some r" "\<not> comment_free r"
  shows "fst (strip_namespace_from_xml t) = Inl ValueError"
proof -
  from assms(2) strip_loop_completed(1) [of r] have "\<not> snd (strip_loop r)" by blast
  then obtain r' where "strip_loop r = (r', False)" by (cases "strip_loop r") auto
  with assms(1) show ?thesis
    by (simp add: strip_namespace_from_xml_def)
qed

lemma stripped_root_eq:
  "stripped_root t = map_option (\<lambda>r. cleanup_namespaces (strip_tags r)) (getroot t)"
  by (simp add: stripped_root_def)

lemma parse_reqif_declared:
  assumes "getroot t = Some root" "nsmap root None = Some ns"
    "nsmap root (Some ''configuration'') = Some c" "comment_free root"
  shows "parse_reqif P t = (parse_stripped P ns c (stripped_root t), ElementTree (stripped_root t))"
  using assms
  by (simp add: parse_reqif_def stripped_root_def strip_namespace_from_xml_comment_free)

lemma parse_reqif_commented:
  assumes "getroot t = Some root" "nsmap root None = Some ns"
    "nsmap root (Some ''configuration'') = Some c" "\<not> comment_free root"
  shows "fst (parse_reqif P t) = Inl ValueError"
proof -
  from strip_namespace_from_xml_commented [OF assms(1,4)] obtain t' where
    "strip_namespace_from_xml t = (Inl ValueError, t')"
    by (cases "strip_namespace_from_xml t") auto
  with assms(1,2,3) show ?thesis by (simp add: parse_reqif_def)
qed

lemma parse_reqif_Inr_declared:
  assumes "fst (parse_reqif P t) = Inr b"
  shows "\<exists>root ns c. getroot t = Some root \<and> nsmap root None = Some ns \<and>
     nsmap root (Some ''configuration'') = Some c \<and> comment_free root"
proof -
  from assms obtain root ns c where root: "getroot t = Some root"
    and ns: "nsmap root None = Some ns" and c: "nsmap root (Some ''configuration'') = Some c"
    by (auto simp: parse_reqif_def split: option.splits)
  have "comment_free root"
  proof (rule ccontr)
    assume "\<not> comment_free root"
    from parse_reqif_commented [OF root ns c this, of P] assms show False by simp
  qed
  with root ns c show ?thesis by blast
qed

lemma parse_stripped_Inr_tag:
  assumes "parse_stripped P ns c r = Inr b"
  shows "\<exists>x. r = Some x \<and> has_tag ''REQ-IF'' x"
  using assms by (auto simp: parse_stripped_def split: option.splits if_splits)

lemma parse_stripped_header:
  assumes "has_tag ''REQ-IF'' r" "find_child ''THE-HEADER'' r = Some h"
  shows "parse_stripped P ns c (Some r) =
     (case find_child ''CORE-CONTENT'' r of
        None \<Rightarrow> Inl (NotImplementedError [''None''])
      | Some cc \<Rightarrow>
          and_then (assert_is_not_None (find_child ''REQ-IF-CONTENT'' cc))
            (parse_req_if_content P ns c))"
  using assms find_child_Some_children [OF assms(2)] by (simp add: parse_stripped_def)

lemma parse_stripped_empty:
  assumes "has_tag ''REQ-IF'' r" "children r = [] \<or> find_child ''THE-HEADER'' r = None"
  shows "parse_stripped P ns c (Some r) = Inr (create_empty (Some ns) (Some c))"
  using assms by (auto simp: parse_stripped_def)

lemma parse_req_if_content_Inr_D:
  assumes "parse_req_if_content P ns c ric = Inr b"
  shows "\<exists>dt st so sp dts dlk sots sps srs plk sos olk.
     find_child ''DATATYPES'' ric = Some dt \<and> find_child ''SPEC-TYPES'' ric = Some st \<and>
     find_child ''SPEC-OBJECTS'' ric = Some so \<and> find_child ''SPECIFICATIONS'' ric = Some sp \<and>
     data_types_loop P (children dt) [] dict_literal = Inr (dts, dlk) \<and>
     spec_object_types_loop P (children st) None [] = Inr sots \<and>
     specifications_loop P (children sp) [] = Inr sps \<and>
     spec_relations_loop P
       (case find_child ''SPEC-RELATIONS'' ric of None \<Rightarrow> [] | Some s \<Rightarrow> children s)
       [] defaultdict_list = Inr (srs, plk) \<and>
     spec_objects_loop P (children so) [] dict_literal = Inr (sos, olk) \<and>
     b = \<lparr>namespace = Some ns, configuration = Some c,
          core_content = Some (ReqIFCoreContent (ReqIFReqIFContent sos)),
          data_types = dts, spec_object_types = sots, spec_objects_lookup = olk,
          spec_relations = srs, spec_relations_parent_lookup = plk,
          specifications = sps\<rparr>"
  using assms unfolding parse_req_if_content_def Let_def
  by (auto simp: and_then_Inr_iff assert_is_not_None_Inr_iff split: option.splits prod.splits)

lemma parse_req_if_content_Inr:
  assumes "find_child ''DATATYPES'' ric = Some dt" "find_child ''SPEC-TYPES'' ric = Some st"
    "find_child ''SPEC-OBJECTS'' ric = Some so" "find_child ''SPECIFICATIONS'' ric = Some sp"
    "data_types_loop P (children dt) [] dict_literal = Inr (dts, dlk)"
    "spec_object_types_loop P (children st) None [] = Inr sots"
    "specifications_loop P (children sp) [] = Inr sps"
    "spec_relations_loop P
       (case find_child ''SPEC-RELATIONS'' ric of None \<Rightarrow> [] | Some s \<Rightarrow> children s)
       [] defaultdict_list = Inr (srs, plk)"
    "spec_objects_loop P (children so) [] dict_literal = Inr (sos, olk)"
  shows "parse_req_if_content P ns c ric =
     Inr \<lparr>namespace = Some ns, configuration = Some c,
          core_content = Some (ReqIFCoreContent (ReqIFReqIFContent sos)),
          data_types = dts, spec_object_types = sots, spec_objects_lookup = olk,
          spec_relations = srs, spec_relations_parent_lookup = plk,
          specifications = sps\<rparr>"
  using assms unfolding parse_req_if_content_def Let_def by simp

text \<open>The structure of a document, unfolded into the lookups the code makes.\<close>

lemma section_of_SomeD:
  assumes "section_of name t = Some s"
  shows "\<exists>r cc ric. stripped_root t = Some r \<and> find_child ''CORE-CONTENT'' r = Some cc \<and>
     find_child ''REQ-IF-CONTENT'' cc = Some ric \<and> find_child name ric = Some s"
  using assms
  by (auto simp: section_of_def req_if_content_section_def core_content_section_def
      split: Option.bind_splits)

lemma section_children_find:
  assumes "stripped_root t = Some r" "find_child ''CORE-CONTENT'' r = Some cc"
    "find_child ''REQ-IF-CONTENT'' cc = Some ric"
  shows "section_of name t = find_child name ric"
    and "section_children name t = (case find_child name ric of None \<Rightarrow> [] | Some s \<Rightarrow> children s)"
  using assms
  by (simp_all add: section_children_def section_of_def req_if_content_section_def
      core_content_section_def)

lemma well_structured_D:
  assumes "well_structured t"
  shows "\<exists>root ns c r h cc ric dt st so sp.
     getroot t = Some root \<and> comment_free root \<and> nsmap root None = Some ns \<and>
     nsmap root (Some ''configuration'') = Some c \<and>
     stripped_root t = Some r \<and> has_tag ''REQ-IF'' r \<and>
     find_child ''THE-HEADER'' r = Some h \<and> find_child ''CORE-CONTENT'' r = Some cc \<and>
     find_child ''REQ-IF-CONTENT'' cc = Some ric \<and>
     find_child ''DATATYPES'' ric = Some dt \<and> find_child ''SPEC-TYPES'' ric = Some st \<and>
     find_child ''SPEC-OBJECTS'' ric = Some so \<and> find_child ''SPECIFICATIONS'' ric = Some sp"
proof -
  from assms obtain root where root: "getroot t = Some root"
    and loc: "element_localname root = Some ''REQ-IF''"
    by (auto simp: well_structured_def root_localname_def split: Option.bind_splits)
  from assms root have cf: "comment_free root"
    by (simp add: well_structured_def no_comments_def)
  from assms root obtain ns c where ns: "nsmap root None = Some ns"
    "nsmap root (Some ''configuration'') = Some c"
    by (auto simp: well_structured_def declares_namespaces_def root_nsmap_def)
  from assms obtain dt where "section_of ''DATATYPES'' t = Some dt"
    by (auto simp: well_structured_def)
  from section_of_SomeD [OF this] obtain r cc ric where
    r: "stripped_root t = Some r" "find_child ''CORE-CONTENT'' r = Some cc"
    "find_child ''REQ-IF-CONTENT'' cc = Some ric" "find_child ''DATATYPES'' ric = Some dt"
    by blast
  from r(1) root have tag: "has_tag ''REQ-IF'' r"
    by (auto simp: stripped_root_eq has_tag_stripped loc)
  from assms r(1) obtain h where h: "find_child ''THE-HEADER'' r = Some h"
    by (auto simp: well_structured_def the_header_def)
  from assms obtain st so sp where
    "find_child ''SPEC-TYPES'' ric = Some st" "find_child ''SPEC-OBJECTS'' ric = Some so"
    "find_child ''SPECIFICATIONS'' ric = Some sp"
    by (auto simp: well_structured_def section_children_find(1) [OF r(1,2,3)])
  with root cf ns r tag h show ?thesis by blast
qed

text \<open>
  The bundle of a well-structured document whose leaf parsers accept: the sequences
  are the parsed objects, the spec object dictionary is the fold of the assignments and
  the relation dictionary is the index by source.
\<close>

lemma parse_reqif_assembled:
  assumes ws: "well_structured t"
    and dts: "map (DataTypeParser_parse P) (section_children ''DATATYPES'' t) = map Inr dts"
    and sots: "spec_object_types_loop P (section_children ''SPEC-TYPES'' t) None [] = Inr sots"
    and sps: "map (ReqIFSpecificationParser_parse P) (section_children ''SPECIFICATIONS'' t) = map Inr sps"
    and srs: "map (SpecRelationParser_parse P) (section_children ''SPEC-RELATIONS'' t) = map Inr srs"
    and sos: "map (SpecObjectParser_parse P) (section_children ''SPEC-OBJECTS'' t) = map Inr sos"
  shows "parse_reqif P t =
     (Inr \<lparr>namespace = root_nsmap t None, configuration = root_nsmap t (Some ''configuration''),
          core_content = Some (ReqIFCoreContent (ReqIFReqIFContent sos)),
          data_types = dts, spec_object_types = sots,
          spec_objects_lookup =
            \<lparr>default_factory = None,
             items = fold_lookup (spec_object_identifier P) sos Map.empty\<rparr>,
          spec_relations = srs,
          spec_relations_parent_lookup =
            \<lparr>default_factory = Some [], items = relation_index P srs\<rparr>,
          specifications = sps\<rparr>,
      ElementTree (stripped_root t))"
proof -
  from well_structured_D [OF ws] obtain root ns c r h cc ric dt st so sp where
    root: "getroot t = Some root" and cf: "comment_free root"
    and ns: "nsmap root None = Some ns"
    and c: "nsmap root (Some ''configuration'') = Some c"
    and r: "stripped_root t = Some r" and tag: "has_tag ''REQ-IF'' r"
    and h: "find_child ''THE-HEADER'' r = Some h"
    and cc: "find_child ''CORE-CONTENT'' r = Some cc"
    and ric: "find_child ''REQ-IF-CONTENT'' cc = Some ric"
    and dt: "find_child ''DATATYPES'' ric = Some dt"
    and st: "find_child ''SPEC-TYPES'' ric = Some st"
    and so: "find_child ''SPEC-OBJECTS'' ric = Some so"
    and sp: "find_child ''SPECIFICATIONS'' ric = Some sp"
    by blast
  note sc = section_children_find(2) [OF r cc ric]
  have l1: "data_types_loop P (children dt) [] dict_literal =
      Inr (dts, \<lparr>default_factory = None,
                 items = fold_lookup (data_type_identifier P) dts Map.empty\<rparr>)"
    using data_types_loop_Inr [of P "children dt" dts "[]" dict_literal] dts
    by (simp add: sc dt dict_literal_def)
  have l2: "spec_object_types_loop P (children st) None [] = Inr sots"
    using sots by (simp add: sc st)
  have l3: "specifications_loop P (children sp) [] = Inr sps"
    using specifications_loop_Inr [of P "children sp" sps "[]"] sps by (simp add: sc sp)
  have l4: "spec_relations_loop P
       (case find_child ''SPEC-RELATIONS'' ric of None \<Rightarrow> [] | Some s \<Rightarrow> children s)
       [] defaultdict_list = Inr (srs, \<lparr>default_factory = Some [], items = relation_index P srs\<rparr>)"
    using spec_relations_loop_Inr [of P _ srs defaultdict_list "[]"] srs
    by (simp add: sc defaultdict_list_def extend_index_empty)
  have l5: "spec_objects_loop P (children so) [] dict_literal =
      Inr (sos, \<lparr>default_factory = None,
                 items = fold_lookup (spec_object_identifier P) sos Map.empty\<rparr>)"
    using spec_objects_loop_Inr [of P "children so" sos "[]" dict_literal] sos
    by (simp add: sc so dict_literal_def)
  have "parse_stripped P ns c (Some r) =
      parse_req_if_content P ns c ric"
    by (simp add: parse_stripped_header [OF tag h] cc ric)
  also note parse_req_if_content_Inr [OF dt st so sp l1 l2 l3 l4 l5]
  finally show ?thesis
    by (simp add: parse_reqif_declared [OF root ns c cf] r root_nsmap_def root ns c)
qed

text \<open>Conversely, a bundle for a document with a header means all of that held.\<close>

lemma parse_reqif_Inr_header:
  assumes b: "fst (parse_reqif P t) = Inr b" and hd: "the_header t \<noteq> None"
  shows "well_structured t \<and>
    (\<exists>dts sots sps srs sos.
       map (DataTypeParser_parse P) (section_children ''DATATYPES'' t) = map Inr dts \<and>
       spec_object_types_loop P (section_children ''SPEC-TYPES'' t) None [] = Inr sots \<and>
       map (ReqIFSpecificationParser_parse P) (section_children ''SPECIFICATIONS'' t) = map Inr sps \<and>
       map (SpecRelationParser_parse P) (section_children ''SPEC-RELATIONS'' t) = map Inr srs \<and>
       map (SpecObjectParser_parse P) (section_children ''SPEC-OBJECTS'' t) = map Inr sos)"
proof -
  from parse_reqif_Inr_declared [OF b] obtain root ns c where
    root: "getroot t = Some root" and ns: "nsmap root None = Some ns"
    and c: "nsmap root (Some ''configuration'') = Some c" and cf: "comment_free root"
    by blast
  from b have ps: "parse_stripped P ns c (stripped_root t) = Inr b"
    by (simp add: parse_reqif_declared [OF root ns c cf])
  from parse_stripped_Inr_tag [OF ps] obtain r where
    r: "stripped_root t = Some r" and tag: "has_tag ''REQ-IF'' r"
    by blast
  from hd r obtain h where h: "find_child ''THE-HEADER'' r = Some h"
    by (auto simp: the_header_def)
  from ps obtain cc where cc: "find_child ''CORE-CONTENT'' r = Some cc"
    by (cases "find_child ''CORE-CONTENT'' r") (simp_all add: r parse_stripped_header [OF tag h])
  from ps obtain ric where ric: "find_child ''REQ-IF-CONTENT'' cc = Some ric"
    and pc: "parse_req_if_content P ns c ric = Inr b"
    by (auto simp: r parse_stripped_header [OF tag h] cc and_then_Inr_iff
        assert_is_not_None_Inr_iff)
  from parse_req_if_content_Inr_D [OF pc] obtain dt st so sp dts dlk sots sps srs plk sos olk where
    f: "find_child ''DATATYPES'' ric = Some dt" "find_child ''SPEC-TYPES'' ric = Some st"
      "find_child ''SPEC-OBJECTS'' ric = Some so" "find_child ''SPECIFICATIONS'' ric = Some sp"
    and l1: "data_types_loop P (children dt) [] dict_literal = Inr (dts, dlk)"
    and l2: "spec_object_types_loop P (children st) None [] = Inr sots"
    and l3: "specifications_loop P (children sp) [] = Inr sps"
    and l4: "spec_relations_loop P
       (case find_child ''SPEC-RELATIONS'' ric of None \<Rightarrow> [] | Some s \<Rightarrow> children s)
       [] defaultdict_list = Inr (srs, plk)"
    and l5: "spec_objects_loop P (children so) [] dict_literal = Inr (sos, olk)"
    by blast
  note sc = section_children_find [OF r cc ric]
  from root have loc: "root_localname t = Some ''REQ-IF''"
    using r tag by (auto simp: root_localname_def stripped_root_eq has_tag_stripped)
  have ws: "well_structured t"
    using root ns c cf loc hd f
    by (simp add: well_structured_def declares_namespaces_def root_nsmap_def no_comments_def sc(1))
  from data_types_loop_Inr_D [OF l1] obtain dts' where
    d1: "map (DataTypeParser_parse P) (section_children ''DATATYPES'' t) = map Inr dts'"
    by (auto simp: sc(2) f)
  from specifications_loop_Inr_D [OF l3] obtain sps' where
    d3: "map (ReqIFSpecificationParser_parse P) (section_children ''SPECIFICATIONS'' t) = map Inr sps'"
    by (auto simp: sc(2) f)
  from spec_relations_loop_Inr_D [OF l4] obtain srs' where
    d4: "map (SpecRelationParser_parse P) (section_children ''SPEC-RELATIONS'' t) = map Inr srs'"
    by (auto simp: sc(2))
  from spec_objects_loop_Inr_D [OF l5] obtain sos' where
    d5: "map (SpecObjectParser_parse P) (section_children ''SPEC-OBJECTS'' t) = map Inr sos'"
    by (auto simp: sc(2) f)
  from l2 have d2: "spec_object_types_loop P (section_children ''SPEC-TYPES'' t) None [] = Inr sots"
    by (simp add: sc(2) f)
  from ws d1 d2 d3 d4 d5 show ?thesis by blast
qed

section \<open>Evaluating the samples\<close>

lemmas sample_defs = sample_document_def reqif_document_def document_def branch_def leaf_def
  default_ns_def both_declarations_def sample_datatypes_def sample_spec_types_def
  sample_spec_objects_def sample_spec_relations_def sample_specifications_def reqif_uri_def
  configuration_uri_def commented_document_def undeclared_document_def
  no_configuration_document_def mixed_spec_types_def mixed_spec_types_reversed_def
  interleaved_spec_types_def mixed_types_document_def mixed_types_reversed_document_def
  interleaved_types_document_def duplicate_spec_objects_def duplicate_document_def
  duplicate_mixed_document_def duplicate_commented_document_def no_relations_document_def
  no_relations_mixed_document_def no_relations_commented_document_def
  no_datatypes_document_def no_spec_types_document_def no_spec_objects_document_def
  no_specifications_document_def no_header_document_def comment_only_document_def
  other_root_commented_document_def prefixed_sample_document_def

lemmas section_defs = section_children_def section_of_def req_if_content_section_def
  core_content_section_def stripped_root_def the_header_def find_child_def root_nsmap_def
  root_localname_def root_children_def nsmap_def declares_namespaces_def no_comments_def
  well_structured_def is_spec_object_type_def

lemmas parse_defs = parse_reqif_def strip_namespace_from_xml_def parse_stripped_def
  parse_req_if_content_def sample_parsers_def required_def dict_literal_def
  defaultdict_list_def getitem_def create_empty_def

section \<open>The early exits\<close>

lemma parse_reqif_Inr_root:
  assumes "fst (parse_reqif P t) = Inr b"
  shows "declares_namespaces t \<and> no_comments t \<and> root_localname t = Some ''REQ-IF''"
proof -
  from parse_reqif_Inr_declared [OF assms] obtain root ns c where
    root: "getroot t = Some root" and ns: "nsmap root None = Some ns"
    and c: "nsmap root (Some ''configuration'') = Some c" and cf: "comment_free root"
    by blast
  from assms have "parse_stripped P ns c (stripped_root t) = Inr b"
    by (simp add: parse_reqif_declared [OF root ns c cf])
  from parse_stripped_Inr_tag [OF this] root have "element_localname root = Some ''REQ-IF''"
    by (auto simp: stripped_root_eq has_tag_stripped)
  with root ns c cf show ?thesis
    by (simp add: declares_namespaces_def root_nsmap_def root_localname_def no_comments_def)
qed

lemma parse_reqif_empty:
  assumes decl: "declares_namespaces t" and nc: "no_comments t"
    and loc: "root_localname t = Some ''REQ-IF''"
    and empty: "root_children t = [] \<or> the_header t = None"
  shows "parse_reqif P t =
     (Inr (create_empty (root_nsmap t None) (root_nsmap t (Some ''configuration''))),
      ElementTree (stripped_root t))"
proof -
  from loc obtain root where root: "getroot t = Some root"
    and tag: "element_localname root = Some ''REQ-IF''"
    by (auto simp: root_localname_def split: Option.bind_splits)
  from nc root have cf: "comment_free root" by (simp add: no_comments_def)
  from decl root obtain ns c where ns: "nsmap root None = Some ns"
    and c: "nsmap root (Some ''configuration'') = Some c"
    by (auto simp: declares_namespaces_def root_nsmap_def)
  let ?r = "cleanup_namespaces (strip_tags root)"
  have r: "stripped_root t = Some ?r" by (simp add: stripped_root_eq root)
  have t: "has_tag ''REQ-IF'' ?r" by (simp add: has_tag_stripped tag)
  from empty have "children ?r = [] \<or> find_child ''THE-HEADER'' ?r = None"
    by (auto simp: root_children_def root children_stripped the_header_def r)
  from parse_stripped_empty [OF t this]
  show ?thesis
    by (simp add: parse_reqif_declared [OF root ns c cf] r root_nsmap_def root ns c)
qed

lemma parse_reqif_not_REQ_IF:
  assumes "root_localname t = Some name" "name \<noteq> ''REQ-IF''"
  shows "\<exists>e. fst (parse_reqif P t) = Inl e"
proof (cases "fst (parse_reqif P t)")
  case (Inl e)
  then show ?thesis by blast
next
  case (Inr b)
  from parse_reqif_Inr_root [OF this] assms show ?thesis by simp
qed

section \<open>Missing sections\<close>

lemma parse_reqif_with_header:
  assumes decl: "declares_namespaces t" and nc: "no_comments t"
    and loc: "root_localname t = Some ''REQ-IF''"
    and hd: "the_header t \<noteq> None"
  shows "fst (parse_reqif P t) =
     (case core_content_section t of
        None \<Rightarrow> Inl (NotImplementedError [''None''])
      | Some cc \<Rightarrow>
          (case req_if_content_section t of
             None \<Rightarrow> Inl AssertionError
           | Some ric \<Rightarrow>
               parse_req_if_content P (the (root_nsmap t None))
                 (the (root_nsmap t (Some ''configuration''))) ric))"
proof -
  from loc obtain root where root: "getroot t = Some root"
    and tag: "element_localname root = Some ''REQ-IF''"
    by (auto simp: root_localname_def split: Option.bind_splits)
  from nc root have cf: "comment_free root" by (simp add: no_comments_def)
  from decl root obtain ns c where ns: "nsmap root None = Some ns"
    and c: "nsmap root (Some ''configuration'') = Some c"
    by (auto simp: declares_namespaces_def root_nsmap_def)
  let ?r = "cleanup_namespaces (strip_tags root)"
  have r: "stripped_root t = Some ?r" by (simp add: stripped_root_eq root)
  have t: "has_tag ''REQ-IF'' ?r" by (simp add: has_tag_stripped tag)
  from hd obtain h where h: "find_child ''THE-HEADER'' ?r = Some h"
    by (auto simp: the_header_def r)
  show ?thesis
    by (simp add: parse_reqif_declared [OF root ns c cf] r parse_stripped_header [OF t h]
        core_content_section_def req_if_content_section_def root_nsmap_def root ns c
        split: option.splits)
qed

lemma section_of_req_if_content:
  "req_if_content_section t = Some ric \<Longrightarrow> section_of name t = find_child name ric"
  by (simp add: section_of_def)

lemma section_children_req_if_content:
  "req_if_content_section t = Some ric \<Longrightarrow>
   section_children name t = (case find_child name ric of None \<Rightarrow> [] | Some s \<Rightarrow> children s)"
  by (simp add: section_children_def section_of_def)

lemma section_of_present:
  "section_of name t \<noteq> None \<Longrightarrow> req_if_content_section t \<noteq> None"
  by (cases "req_if_content_section t") (simp_all add: section_of_def)

lemma req_if_content_present:
  "req_if_content_section t \<noteq> None \<Longrightarrow> core_content_section t \<noteq> None"
  by (cases "core_content_section t") (simp_all add: req_if_content_section_def)

lemma parse_req_if_content_no_datatypes:
  "find_child ''DATATYPES'' ric = None \<Longrightarrow> parse_req_if_content P ns c ric = Inl AssertionError"
  by (simp add: parse_req_if_content_def)

lemma parse_req_if_content_no_spec_types:
  assumes "find_child ''DATATYPES'' ric = Some dt"
    and "map (DataTypeParser_parse P) (children dt) = map Inr dts"
    and "find_child ''SPEC-OBJECTS'' ric = Some so"
    and "find_child ''SPECIFICATIONS'' ric = Some sp"
    and "find_child ''SPEC-TYPES'' ric = None"
  shows "parse_req_if_content P ns c ric = Inl (NotImplementedError [])"
  using assms data_types_loop_Inr [OF assms(2), of "[]" dict_literal]
  by (simp add: parse_req_if_content_def Let_def)

section \<open>The fields of an assembled bundle\<close>

lemma map_Inr_inject: "map Inr xs = map Inr ys \<Longrightarrow> xs = ys"
  by (simp add: inj_map_eq_map)

lemma parse_reqif_Inr_bundle:
  assumes ok: "fst (parse_reqif P t) = Inr b" and hd: "the_header t \<noteq> None"
  shows "\<exists>dts sots sps srs sos.
     map (DataTypeParser_parse P) (section_children ''DATATYPES'' t) = map Inr dts \<and>
     spec_object_types_loop P (section_children ''SPEC-TYPES'' t) None [] = Inr sots \<and>
     map (ReqIFSpecificationParser_parse P) (section_children ''SPECIFICATIONS'' t) = map Inr sps \<and>
     map (SpecRelationParser_parse P) (section_children ''SPEC-RELATIONS'' t) = map Inr srs \<and>
     map (SpecObjectParser_parse P) (section_children ''SPEC-OBJECTS'' t) = map Inr sos \<and>
     core_content b = Some (ReqIFCoreContent (ReqIFReqIFContent sos)) \<and>
     data_types b = dts \<and> spec_object_types b = sots \<and> specifications b = sps \<and>
     spec_relations b = srs \<and>
     spec_objects_lookup b =
       \<lparr>default_factory = None, items = fold_lookup (spec_object_identifier P) sos Map.empty\<rparr> \<and>
     spec_relations_parent_lookup b =
       \<lparr>default_factory = Some [], items = relation_index P srs\<rparr>"
proof -
  from parse_reqif_Inr_header [OF ok hd] obtain dts sots sps srs sos where
    ws: "well_structured t"
    and d: "map (DataTypeParser_parse P) (section_children ''DATATYPES'' t) = map Inr dts"
      "spec_object_types_loop P (section_children ''SPEC-TYPES'' t) None [] = Inr sots"
      "map (ReqIFSpecificationParser_parse P) (section_children ''SPECIFICATIONS'' t) = map Inr sps"
      "map (SpecRelationParser_parse P) (section_children ''SPEC-RELATIONS'' t) = map Inr srs"
      "map (SpecObjectParser_parse P) (section_children ''SPEC-OBJECTS'' t) = map Inr sos"
    by blast
  from parse_reqif_assembled [OF ws d] ok
  have "b = \<lparr>namespace = root_nsmap t None, configuration = root_nsmap t (Some ''configuration''),
          core_content = Some (ReqIFCoreContent (ReqIFReqIFContent sos)),
          data_types = dts, spec_object_types = sots,
          spec_objects_lookup =
            \<lparr>default_factory = None,
             items = fold_lookup (spec_object_identifier P) sos Map.empty\<rparr>,
          spec_relations = srs,
          spec_relations_parent_lookup =
            \<lparr>default_factory = Some [], items = relation_index P srs\<rparr>,
          specifications = sps\<rparr>"
    by simp
  then have "core_content b = Some (ReqIFCoreContent (ReqIFReqIFContent sos)) \<and>
     data_types b = dts \<and> spec_object_types b = sots \<and> specifications b = sps \<and>
     spec_relations b = srs \<and>
     spec_objects_lookup b =
       \<lparr>default_factory = None, items = fold_lookup (spec_object_identifier P) sos Map.empty\<rparr> \<and>
     spec_relations_parent_lookup b =
       \<lparr>default_factory = Some [], items = relation_index P srs\<rparr>"
    by simp
  with d show ?thesis by blast
qed

section \<open>What the code returns on the documents it accepts\<close>

text \<open>
  The lemmas of this section speak about documents on which \<^verbatim>\<open>parse_reqif\<close> gets as far
  as it says: no comment or processing instruction, both namespaces declared, and
  where it is assumed, the loop over \<^verbatim>\<open>SPEC-TYPES\<close> returning. They say nothing about
  the documents on which the code raises before.
\<close>

lemma is_spec_object_type_eq: "is_spec_object_type = has_tag ''SPEC-OBJECT-TYPE''"
  by (rule ext) (simp add: is_spec_object_type_def)

lemma parse_reqif_other_root:
  assumes "declares_namespaces t" "no_comments t" "root_localname t = Some name"
    "name \<noteq> ''REQ-IF''"
  shows "fst (parse_reqif P t) = Inl (NotImplementedError [])"
proof -
  from assms(3) obtain root where root: "getroot t = Some root"
    and tag: "element_localname root = Some name"
    by (auto simp: root_localname_def split: Option.bind_splits)
  from assms(2) root have cf: "comment_free root" by (simp add: no_comments_def)
  from assms(1) root obtain ns c where ns: "nsmap root None = Some ns"
    and c: "nsmap root (Some ''configuration'') = Some c"
    by (auto simp: declares_namespaces_def root_nsmap_def)
  show ?thesis
    using tag assms(4)
    by (simp add: parse_reqif_declared [OF root ns c cf] stripped_root_eq root parse_stripped_def
        has_tag_stripped)
qed

lemma last_spec_object_wins:
  assumes ws: "well_structured t"
    and dts: "map (DataTypeParser_parse P) (section_children ''DATATYPES'' t) = map Inr dts"
    and sots: "spec_object_types_loop P (section_children ''SPEC-TYPES'' t) None [] = Inr sots"
    and sps: "map (ReqIFSpecificationParser_parse P) (section_children ''SPECIFICATIONS'' t) = map Inr sps"
    and srs: "map (SpecRelationParser_parse P) (section_children ''SPEC-RELATIONS'' t) = map Inr srs"
    and two: "section_children ''SPEC-OBJECTS'' t = [x1, x2]"
    and o1: "SpecObjectParser_parse P x1 = Inr o1" and o2: "SpecObjectParser_parse P x2 = Inr o2"
    and same: "spec_object_identifier P o1 = spec_object_identifier P o2"
  shows "\<exists>b. fst (parse_reqif P t) = Inr b \<and>
    core_content b = Some (ReqIFCoreContent (ReqIFReqIFContent [o1, o2])) \<and>
    dom (items (spec_objects_lookup b)) = {spec_object_identifier P o1} \<and>
    items (spec_objects_lookup b) (spec_object_identifier P o1) = Some o2"
proof -
  from two o1 o2 have sos:
    "map (SpecObjectParser_parse P) (section_children ''SPEC-OBJECTS'' t) = map Inr [o1, o2]"
    by simp
  from parse_reqif_assembled [OF ws dts sots sps srs sos] same
  show ?thesis by (simp add: fold_lookup_def)
qed

lemma no_spec_relations_section:
  assumes ws: "well_structured t"
    and absent: "section_of ''SPEC-RELATIONS'' t = None"
    and dts: "map (DataTypeParser_parse P) (section_children ''DATATYPES'' t) = map Inr dts"
    and sots: "spec_object_types_loop P (section_children ''SPEC-TYPES'' t) None [] = Inr sots"
    and sps: "map (ReqIFSpecificationParser_parse P) (section_children ''SPECIFICATIONS'' t) = map Inr sps"
    and sos: "map (SpecObjectParser_parse P) (section_children ''SPEC-OBJECTS'' t) = map Inr sos"
  shows "\<exists>b. fst (parse_reqif P t) = Inr b \<and> spec_relations b = [] \<and>
    items (spec_relations_parent_lookup b) = Map.empty"
proof -
  from absent have srs:
    "map (SpecRelationParser_parse P) (section_children ''SPEC-RELATIONS'' t) = map Inr []"
    by (simp add: section_children_def)
  have "relation_index P [] = Map.empty"
    by (rule ext) (simp add: relation_index_def)
  with parse_reqif_assembled [OF ws dts sots sps srs sos]
  show ?thesis by simp
qed

lemma bundle_in_document_order:
  assumes ok: "fst (parse_reqif P t) = Inr b" and hd: "the_header t \<noteq> None"
  shows "map Inr (data_types b) = map (DataTypeParser_parse P) (section_children ''DATATYPES'' t) \<and>
    (list_all is_spec_object_type (section_children ''SPEC-TYPES'' t) \<longrightarrow>
       map Inr (spec_object_types b) =
         map (SpecObjectTypeParser_parse P) (section_children ''SPEC-TYPES'' t)) \<and>
    (\<exists>sos. core_content b = Some (ReqIFCoreContent (ReqIFReqIFContent sos)) \<and>
       map Inr sos = map (SpecObjectParser_parse P) (section_children ''SPEC-OBJECTS'' t)) \<and>
    map Inr (specifications b) =
      map (ReqIFSpecificationParser_parse P) (section_children ''SPECIFICATIONS'' t) \<and>
    map Inr (spec_relations b) =
      map (SpecRelationParser_parse P) (section_children ''SPEC-RELATIONS'' t) \<and>
    (\<forall>r \<in> set (spec_relations b).
       items (spec_relations_parent_lookup b) (spec_relation_source P r) =
         Some (map (spec_relation_target P)
           (filter (\<lambda>r'. spec_relation_source P r' = spec_relation_source P r) (spec_relations b)))) \<and>
    dom (items (spec_relations_parent_lookup b)) = spec_relation_source P ` set (spec_relations b)"
proof -
  from parse_reqif_Inr_bundle [OF ok hd] obtain dts sots sps srs sos where
    d1: "map (DataTypeParser_parse P) (section_children ''DATATYPES'' t) = map Inr dts"
    and d2: "spec_object_types_loop P (section_children ''SPEC-TYPES'' t) None [] = Inr sots"
    and d3: "map (ReqIFSpecificationParser_parse P) (section_children ''SPECIFICATIONS'' t) = map Inr sps"
    and d4: "map (SpecRelationParser_parse P) (section_children ''SPEC-RELATIONS'' t) = map Inr srs"
    and d5: "map (SpecObjectParser_parse P) (section_children ''SPEC-OBJECTS'' t) = map Inr sos"
    and b: "core_content b = Some (ReqIFCoreContent (ReqIFReqIFContent sos))"
      "data_types b = dts" "spec_object_types b = sots" "specifications b = sps"
      "spec_relations b = srs"
      "spec_relations_parent_lookup b = \<lparr>default_factory = Some [], items = relation_index P srs\<rparr>"
    by blast
  have c1: "map Inr (data_types b) = map (DataTypeParser_parse P) (section_children ''DATATYPES'' t)"
    by (simp add: b d1)
  have c2: "list_all is_spec_object_type (section_children ''SPEC-TYPES'' t) \<longrightarrow>
       map Inr (spec_object_types b) =
         map (SpecObjectTypeParser_parse P) (section_children ''SPEC-TYPES'' t)"
  proof
    assume "list_all is_spec_object_type (section_children ''SPEC-TYPES'' t)"
    then have all: "list_all (has_tag ''SPEC-OBJECT-TYPE'') (section_children ''SPEC-TYPES'' t)"
      by (simp add: is_spec_object_type_eq)
    from spec_object_types_loop_all_D [OF all d2] obtain ds where
      ds: "map (SpecObjectTypeParser_parse P) (section_children ''SPEC-TYPES'' t) = map Inr ds" ..
    from spec_object_types_loop_all [OF all ds, of None "[]"] d2 have "sots = ds" by simp
    with ds show "map Inr (spec_object_types b) =
         map (SpecObjectTypeParser_parse P) (section_children ''SPEC-TYPES'' t)"
      by (simp add: b)
  qed
  have c3: "\<exists>sos. core_content b = Some (ReqIFCoreContent (ReqIFReqIFContent sos)) \<and>
       map Inr sos = map (SpecObjectParser_parse P) (section_children ''SPEC-OBJECTS'' t)"
    using b(1) d5 by auto
  have c4: "map Inr (specifications b) =
      map (ReqIFSpecificationParser_parse P) (section_children ''SPECIFICATIONS'' t)"
    by (simp add: b d3)
  have c5: "map Inr (spec_relations b) =
      map (SpecRelationParser_parse P) (section_children ''SPEC-RELATIONS'' t)"
    by (simp add: b d4)
  have c6: "\<forall>r \<in> set (spec_relations b).
       items (spec_relations_parent_lookup b) (spec_relation_source P r) =
         Some (map (spec_relation_target P)
           (filter (\<lambda>r'. spec_relation_source P r' = spec_relation_source P r) (spec_relations b)))"
    by (simp add: b relation_index_def targets_by_source_def)
  have c7: "dom (items (spec_relations_parent_lookup b)) =
      spec_relation_source P ` set (spec_relations b)"
    by (auto simp: b relation_index_def dom_def)
  from c1 c2 c3 c4 c5 c6 c7 show ?thesis by blast
qed

section \<open>One document, two parses\<close>




lemma refers_to_default_stripped: "\<not> refers_to (None, u) (strip_tags n)"
  by (induction n) (auto simp: list_ex_iff)

lemma map_of_filter_None:
  "(\<And>v. \<not> Q (k, v)) \<Longrightarrow> map_of (filter Q xs) k = None"
  by (induction xs) auto

lemma nsmap_stripped_default: "nsmap (cleanup_namespaces (strip_tags r)) None = None"
proof (cases r)
  case (Element t decls at cs)
  have "\<And>v. \<not> refers_to (None, v) (strip_tags (Element t decls at cs))"
    by (rule refers_to_default_stripped)
  then have "\<And>v. \<not> refers_to (None, v) (Element (QName None (localname t)) decls at (map strip_tags cs))"
    by simp
  then show ?thesis
    unfolding Element by (simp add: nsmap_def map_of_filter_None)
qed (simp_all add: nsmap_def)

text \<open>
  A call that returns a bundle leaves the tree without the default declaration on its
  root, so a further call on that same tree object stops at line 54.
\<close>

lemma parse_reqif_again_on_same_tree:
  assumes "parse_reqif P t = (Inr b, t')"
  shows "parse_reqif P t' = (Inl (KeyError None), t')"
proof -
  from assms have ok: "fst (parse_reqif P t) = Inr b" by simp
  from parse_reqif_Inr_declared [OF ok] obtain root ns c where
    root: "getroot t = Some root" and ns: "nsmap root None = Some ns"
    and c: "nsmap root (Some ''configuration'') = Some c" and cf: "comment_free root"
    by blast
  from assms have "t' = ElementTree (Some (cleanup_namespaces (strip_tags root)))"
    by (simp add: parse_reqif_declared [OF root ns c cf] stripped_root_eq root)
  then show ?thesis
    by (simp add: parse_reqif_def nsmap_stripped_default)
qed

section \<open>The claims\<close>

subsection \<open>C1: an unrelated child of \<^verbatim>\<open>SPEC-TYPES\<close>\<close>

text \<open>
  C1 says that a \<^verbatim>\<open>SPEC-TYPES\<close> section with one \<^verbatim>\<open>SPEC-OBJECT-TYPE\<close> child and one child of
  another tag parses to exactly one spec object type, the other child being skipped
  without an error and without an extra entry. In the loop of lines 139 to 142 the
  \<^verbatim>\<open>append\<close> is not inside the \<^verbatim>\<open>if\<close>. The code at the two documents the claim covers:
  with the \<^verbatim>\<open>SPEC-OBJECT-TYPE\<close> first, the other child appends the type a second time
  (two entries); with the other child first, \<^verbatim>\<open>spec_type\<close> is read before it is bound
  and the parse raises \<^verbatim>\<open>UnboundLocalError\<close>.
\<close>

theorem unrelated_spec_type_child_is_not_skipped:
  "map_sum id spec_object_types (fst (parse_reqif sample_parsers mixed_types_document)) =
     Inr [''SOT-1'', ''SOT-1''] \<and>
   fst (parse_reqif sample_parsers mixed_types_reversed_document) =
     Inl (UnboundLocalError ''spec_type'')"
  by (simp add: parse_defs sample_defs section_defs)

subsection \<open>C2: a missing required section\<close>

text \<open>
  C2, as stated: with the root \<^verbatim>\<open>REQ-IF\<close>, children and a header, the absence of any one
  of the six sections fails with an error that identifies the missing section, and
  \<^verbatim>\<open>SPEC-TYPES\<close> and \<^verbatim>\<open>SPEC-OBJECTS\<close> are reported together. Counterexample: four sample
  documents, each without one section. Without \<^verbatim>\<open>DATATYPES\<close>, without \<^verbatim>\<open>SPECIFICATIONS\<close>
  and without \<^verbatim>\<open>SPEC-OBJECTS\<close> the exception is the same \<^verbatim>\<open>AssertionError\<close> with no
  message, so it does not tell the three apart; and the missing \<^verbatim>\<open>SPEC-OBJECTS\<close> is
  caught by the assertion of line 116, not by the joint test of line 135, which only a
  missing \<^verbatim>\<open>SPEC-TYPES\<close> reaches.
\<close>

theorem missing_sections_same_error:
  "fst (parse_reqif sample_parsers no_datatypes_document) = Inl AssertionError \<and>
   fst (parse_reqif sample_parsers no_specifications_document) = Inl AssertionError \<and>
   fst (parse_reqif sample_parsers no_spec_objects_document) = Inl AssertionError \<and>
   fst (parse_reqif sample_parsers no_spec_types_document) = Inl (NotImplementedError [])"
  by (simp add: parse_defs sample_defs section_defs)

text \<open>
  C2, amended: for every document whose root tag is \<^verbatim>\<open>REQ-IF\<close>, whose root has children
  and whose \<^verbatim>\<open>THE-HEADER\<close> child is present, if any one of \<^verbatim>\<open>CORE-CONTENT\<close>,
  \<^verbatim>\<open>REQ-IF-CONTENT\<close>, \<^verbatim>\<open>DATATYPES\<close>, \<^verbatim>\<open>SPEC-TYPES\<close>, \<^verbatim>\<open>SPEC-OBJECTS\<close> or \<^verbatim>\<open>SPECIFICATIONS\<close> is
  absent, \<^verbatim>\<open>parse_reqif\<close> raises and returns no bundle. The exception carries no section
  name. For a document that declares both namespaces on its root and contains no
  comment or processing instruction: a missing \<^verbatim>\<open>CORE-CONTENT\<close> raises
  \<^verbatim>\<open>NotImplementedError(None)\<close>; a missing \<^verbatim>\<open>REQ-IF-CONTENT\<close> or \<^verbatim>\<open>DATATYPES\<close> raises
  \<^verbatim>\<open>AssertionError\<close>; and when the data types parse and \<^verbatim>\<open>SPEC-OBJECTS\<close> and
  \<^verbatim>\<open>SPECIFICATIONS\<close> are there, a missing \<^verbatim>\<open>SPEC-TYPES\<close> raises the bare
  \<^verbatim>\<open>NotImplementedError\<close> of the joint test.
\<close>

theorem missing_required_section:
  assumes loc: "root_localname t = Some ''REQ-IF''" and ch: "root_children t \<noteq> []"
    and hd: "the_header t \<noteq> None"
    and missing: "core_content_section t = None \<or> req_if_content_section t = None \<or>
      section_of ''DATATYPES'' t = None \<or> section_of ''SPEC-TYPES'' t = None \<or>
      section_of ''SPEC-OBJECTS'' t = None \<or> section_of ''SPECIFICATIONS'' t = None"
  shows "(\<exists>e. fst (parse_reqif P t) = Inl e) \<and>
    (declares_namespaces t \<and> no_comments t \<and> core_content_section t = None \<longrightarrow>
       fst (parse_reqif P t) = Inl (NotImplementedError [''None''])) \<and>
    (declares_namespaces t \<and> no_comments t \<and> core_content_section t \<noteq> None \<and>
     req_if_content_section t = None \<longrightarrow>
       fst (parse_reqif P t) = Inl AssertionError) \<and>
    (declares_namespaces t \<and> no_comments t \<and> req_if_content_section t \<noteq> None \<and>
     section_of ''DATATYPES'' t = None \<longrightarrow>
       fst (parse_reqif P t) = Inl AssertionError) \<and>
    (declares_namespaces t \<and> no_comments t \<and> section_of ''DATATYPES'' t \<noteq> None \<and>
     map (DataTypeParser_parse P) (section_children ''DATATYPES'' t) = map Inr dts \<and>
     section_of ''SPEC-OBJECTS'' t \<noteq> None \<and> section_of ''SPECIFICATIONS'' t \<noteq> None \<and>
     section_of ''SPEC-TYPES'' t = None \<longrightarrow>
       fst (parse_reqif P t) = Inl (NotImplementedError []))"
proof (intro conjI impI)
  show "\<exists>e. fst (parse_reqif P t) = Inl e"
  proof (cases "fst (parse_reqif P t)")
    case (Inl e)
    then show ?thesis by blast
  next
    case (Inr b)
    from parse_reqif_Inr_header [OF Inr hd] have ws: "well_structured t" by blast
    then have "section_of ''DATATYPES'' t \<noteq> None" "section_of ''SPEC-TYPES'' t \<noteq> None"
      "section_of ''SPEC-OBJECTS'' t \<noteq> None" "section_of ''SPECIFICATIONS'' t \<noteq> None"
      by (simp_all add: well_structured_def)
    moreover from this(1) have "req_if_content_section t \<noteq> None"
      by (rule section_of_present)
    moreover from this have "core_content_section t \<noteq> None"
      by (rule req_if_content_present)
    ultimately show ?thesis using missing by auto
  qed
next
  assume "declares_namespaces t \<and> no_comments t \<and> core_content_section t = None"
  then show "fst (parse_reqif P t) = Inl (NotImplementedError [''None''])"
    by (simp add: parse_reqif_with_header [OF _ _ loc hd])
next
  assume "declares_namespaces t \<and> no_comments t \<and> core_content_section t \<noteq> None \<and>
     req_if_content_section t = None"
  then show "fst (parse_reqif P t) = Inl AssertionError"
    by (auto simp: parse_reqif_with_header [OF _ _ loc hd])
next
  assume a: "declares_namespaces t \<and> no_comments t \<and> req_if_content_section t \<noteq> None \<and>
     section_of ''DATATYPES'' t = None"
  then obtain ric where ric: "req_if_content_section t = Some ric" by blast
  with req_if_content_present [of t] obtain cc where cc: "core_content_section t = Some cc"
    by auto
  from a ric have "find_child ''DATATYPES'' ric = None"
    by (simp add: section_of_req_if_content)
  with a show "fst (parse_reqif P t) = Inl AssertionError"
    by (simp add: parse_reqif_with_header [OF _ _ loc hd] cc ric parse_req_if_content_no_datatypes)
next
  assume a: "declares_namespaces t \<and> no_comments t \<and> section_of ''DATATYPES'' t \<noteq> None \<and>
     map (DataTypeParser_parse P) (section_children ''DATATYPES'' t) = map Inr dts \<and>
     section_of ''SPEC-OBJECTS'' t \<noteq> None \<and> section_of ''SPECIFICATIONS'' t \<noteq> None \<and>
     section_of ''SPEC-TYPES'' t = None"
  with section_of_present [of "''DATATYPES''" t] obtain ric where
    ric: "req_if_content_section t = Some ric"
    by auto
  with req_if_content_present [of t] obtain cc where cc: "core_content_section t = Some cc"
    by auto
  from a obtain dt so sp where f: "find_child ''DATATYPES'' ric = Some dt"
    "find_child ''SPEC-OBJECTS'' ric = Some so" "find_child ''SPECIFICATIONS'' ric = Some sp"
    "find_child ''SPEC-TYPES'' ric = None"
    by (auto simp: section_of_req_if_content [OF ric])
  from a f(1) have d: "map (DataTypeParser_parse P) (children dt) = map Inr dts"
    by (simp add: section_children_req_if_content [OF ric])
  from a show "fst (parse_reqif P t) = Inl (NotImplementedError [])"
    by (simp add: parse_reqif_with_header [OF _ _ loc hd] cc ric
        parse_req_if_content_no_spec_types [OF f(1) d f(2,3,4)])
qed

text \<open>The amended C2 on the sample document without \<^verbatim>\<open>SPEC-TYPES\<close>.\<close>

theorem missing_required_section_witness:
  "root_localname no_spec_types_document = Some ''REQ-IF'' \<and>
   root_children no_spec_types_document \<noteq> [] \<and>
   the_header no_spec_types_document \<noteq> None \<and>
   section_of ''SPEC-TYPES'' no_spec_types_document = None \<and>
   no_comments no_spec_types_document \<and>
   fst (parse_reqif sample_parsers no_spec_types_document) = Inl (NotImplementedError [])"
proof -
  let ?d = no_spec_types_document
  have h1: "root_localname ?d = Some ''REQ-IF''" by (simp add: sample_defs section_defs)
  have h2: "root_children ?d \<noteq> []" by (simp add: sample_defs section_defs)
  have h3: "the_header ?d \<noteq> None" by (simp add: sample_defs section_defs)
  have h4: "section_of ''SPEC-TYPES'' ?d = None" by (simp add: sample_defs section_defs)
  then have h4': "core_content_section ?d = None \<or> req_if_content_section ?d = None \<or>
      section_of ''DATATYPES'' ?d = None \<or> section_of ''SPEC-TYPES'' ?d = None \<or>
      section_of ''SPEC-OBJECTS'' ?d = None \<or> section_of ''SPECIFICATIONS'' ?d = None"
    by blast
  have h5: "no_comments ?d" by (simp add: sample_defs section_defs)
  have g: "declares_namespaces ?d \<and> no_comments ?d \<and> section_of ''DATATYPES'' ?d \<noteq> None \<and>
     map (DataTypeParser_parse sample_parsers) (section_children ''DATATYPES'' ?d) = map Inr [''DT-1''] \<and>
     section_of ''SPEC-OBJECTS'' ?d \<noteq> None \<and> section_of ''SPECIFICATIONS'' ?d \<noteq> None \<and>
     section_of ''SPEC-TYPES'' ?d = None"
    by (simp add: sample_defs section_defs sample_parsers_def required_def)
  from missing_required_section [OF h1 h2 h3 h4', of sample_parsers "[''DT-1'']"] g
  have "fst (parse_reqif sample_parsers ?d) = Inl (NotImplementedError [])" by blast
  with h1 h2 h3 h4 h5 show ?thesis by blast
qed

subsection \<open>C3: the empty bundle\<close>

text \<open>
  C3 says that every document whose root is \<^verbatim>\<open>REQ-IF\<close> and has no children, or no
  \<^verbatim>\<open>THE-HEADER\<close> child, is parsed without an exception into the empty bundle. The code at
  two such documents: \<^verbatim>\<open><REQ-IF/>\<close> without namespace declarations raises \<^verbatim>\<open>KeyError\<close> at
  the subscript of line 54; and a \<^verbatim>\<open>REQ-IF\<close> root with both declarations whose only child
  is a comment, so that it has no header, raises \<^verbatim>\<open>ValueError\<close> in the stripping loop
  of line 188. Neither call reaches the tests of lines 69 to 80.
\<close>

theorem empty_document_raises:
  "root_localname (undeclared_document ''REQ-IF'' []) = Some ''REQ-IF'' \<and>
   root_children (undeclared_document ''REQ-IF'' []) = [] \<and>
   fst (parse_reqif sample_parsers (undeclared_document ''REQ-IF'' [])) = Inl (KeyError None) \<and>
   root_localname comment_only_document = Some ''REQ-IF'' \<and>
   declares_namespaces comment_only_document \<and>
   the_header comment_only_document = None \<and>
   fst (parse_reqif sample_parsers comment_only_document) = Inl ValueError"
  by (simp add: parse_defs sample_defs section_defs)

subsection \<open>C4: a root that is not \<^verbatim>\<open>REQ-IF\<close>\<close>

text \<open>
  C4 says that every document whose root tag is not \<^verbatim>\<open>REQ-IF\<close> fails with the error for
  an unexpected root (the bare \<^verbatim>\<open>NotImplementedError\<close> of line 67). The code at two such
  documents: \<^verbatim>\<open><SPECIFICATION/>\<close> without namespace declarations raises \<^verbatim>\<open>KeyError\<close> at
  line 54; a \<^verbatim>\<open>SPECIFICATION\<close> root with both declarations and a comment below it raises
  \<^verbatim>\<open>ValueError\<close> at line 188. Both come before the test of the root tag. (No bundle is
  returned for any root other than \<^verbatim>\<open>REQ-IF\<close>, and on a declared document without
  comments the error is the one of line 67: lemmas \<open>parse_reqif_not_REQ_IF\<close> and
  \<open>parse_reqif_other_root\<close>.)
\<close>

theorem other_root_raises_other_errors:
  "root_localname (undeclared_document ''SPECIFICATION'' []) = Some ''SPECIFICATION'' \<and>
   fst (parse_reqif sample_parsers (undeclared_document ''SPECIFICATION'' [])) = Inl (KeyError None) \<and>
   root_localname other_root_commented_document = Some ''SPECIFICATION'' \<and>
   declares_namespaces other_root_commented_document \<and>
   fst (parse_reqif sample_parsers other_root_commented_document) = Inl ValueError"
  by (simp add: parse_defs sample_defs section_defs)

subsection \<open>C5: a missing namespace declaration\<close>

text \<open>
  C5 says that a root without a default namespace, or without a namespace for the
  prefix \<^verbatim>\<open>configuration\<close>, is tolerated and leaves the field of the bundle \<^verbatim>\<open>None\<close>. The
  variables are annotated \<^verbatim>\<open>Optional[str]\<close>, but they are filled by the subscripts
  \<^verbatim>\<open>namespace_info[None]\<close> and \<^verbatim>\<open>namespace_info["configuration"]\<close>, which raise
  \<^verbatim>\<open>KeyError\<close> on a missing key. The code at the two failing inputs: \<^verbatim>\<open><REQ-IF/>\<close> with no
  declaration, and \<^verbatim>\<open><REQ-IF xmlns="..."/>\<close> with the default namespace only. Both calls
  raise and leave the tree as it was.
\<close>

theorem missing_namespace_declaration_raises:
  "parse_reqif sample_parsers (undeclared_document ''REQ-IF'' []) =
     (Inl (KeyError None), undeclared_document ''REQ-IF'' []) \<and>
   parse_reqif sample_parsers no_configuration_document =
     (Inl (KeyError (Some ''configuration'')), no_configuration_document)"
  by (simp add: parse_defs sample_defs section_defs)

subsection \<open>C6: two spec objects with one identifier\<close>

text \<open>
  C6 says that every document with two spec objects of one identifier is parsed, with
  both objects in the sequence and the later one in the dictionary. The code at two
  such documents, each with the spec objects \<^verbatim>\<open>SO-1\<close> ``first'' and \<^verbatim>\<open>SO-1\<close> ``second'' and
  every section in place: when \<^verbatim>\<open>SPEC-TYPES\<close> begins with a \<^verbatim>\<open>SPEC-RELATION-TYPE\<close>, the
  loop of lines 139 to 142 reads \<^verbatim>\<open>spec_type\<close> unbound and the parse raises
  \<^verbatim>\<open>UnboundLocalError\<close>; when the root has a comment child, the stripping loop raises
  \<^verbatim>\<open>ValueError\<close>. (Where the parse does return, the bundle is as the claim says: lemma
  \<open>last_spec_object_wins\<close>.)
\<close>

theorem duplicate_identifier_document_raises:
  "map (SpecObjectParser_parse sample_parsers)
     (section_children ''SPEC-OBJECTS'' duplicate_mixed_document) =
     [Inr (''SO-1'', ''first''), Inr (''SO-1'', ''second'')] \<and>
   fst (parse_reqif sample_parsers duplicate_mixed_document) =
     Inl (UnboundLocalError ''spec_type'') \<and>
   map (SpecObjectParser_parse sample_parsers)
     (section_children ''SPEC-OBJECTS'' duplicate_commented_document) =
     [Inr (''SO-1'', ''first''), Inr (''SO-1'', ''second'')] \<and>
   fst (parse_reqif sample_parsers duplicate_commented_document) = Inl ValueError"
  by (simp add: parse_defs sample_defs section_defs)

subsection \<open>C7: no \<^verbatim>\<open>SPEC-RELATIONS\<close> section\<close>

text \<open>
  C7 says that every otherwise valid document without a \<^verbatim>\<open>SPEC-RELATIONS\<close> section is
  parsed, with no relations in the bundle. The code at two such documents, each with
  every other section in place and every child accepted by its leaf parser: when
  \<^verbatim>\<open>SPEC-TYPES\<close> begins with a \<^verbatim>\<open>SPEC-RELATION-TYPE\<close> the parse raises
  \<^verbatim>\<open>UnboundLocalError\<close>; when the root has a comment child it raises \<^verbatim>\<open>ValueError\<close>. (The
  absence of the section itself raises nothing, and where the parse returns the bundle
  is as the claim says: lemma \<open>no_spec_relations_section\<close>.)
\<close>

theorem document_without_relations_raises:
  "section_of ''SPEC-RELATIONS'' no_relations_mixed_document = None \<and>
   fst (parse_reqif sample_parsers no_relations_mixed_document) =
     Inl (UnboundLocalError ''spec_type'') \<and>
   section_of ''SPEC-RELATIONS'' no_relations_commented_document = None \<and>
   fst (parse_reqif sample_parsers no_relations_commented_document) = Inl ValueError"
  by (simp add: parse_defs sample_defs section_defs)

subsection \<open>C8: document order and the relation index\<close>

text \<open>
  C8 says that in every parsed document each of the five sequences lists the decoded
  objects of its source elements in document order, and that the targets of the
  relations are indexed by source in that order. The code at a document whose
  \<^verbatim>\<open>SPEC-TYPES\<close> section has a \<^verbatim>\<open>SPEC-OBJECT-TYPE\<close>, a \<^verbatim>\<open>SPECIFICATION-TYPE\<close> and a second
  \<^verbatim>\<open>SPEC-OBJECT-TYPE\<close>: the parse returns, and the sequence of spec object types has three
  entries, the first type twice, where the decoded source elements in document order
  are two. (The other four sequences and the index are as the claim says, and so is
  this one when \<^verbatim>\<open>SPEC-TYPES\<close> has no other children: lemma \<open>bundle_in_document_order\<close>.)
\<close>

theorem spec_object_types_repeat_an_entry:
  "map_sum id spec_object_types (fst (parse_reqif sample_parsers interleaved_types_document)) =
     Inr [''SOT-1'', ''SOT-1'', ''SOT-2''] \<and>
   map (SpecObjectTypeParser_parse sample_parsers)
     (filter is_spec_object_type (section_children ''SPEC-TYPES'' interleaved_types_document)) =
     [Inr ''SOT-1'', Inr ''SOT-2'']"
  by (simp add: parse_defs sample_defs section_defs)

subsection \<open>C9: parsing a document twice\<close>



subsection \<open>C10: looking up a source without relations\<close>




end
